theory Spec2Isabelle
  imports Main "HOL-Library.Char_ord"
begin

section \<open>Go strings\<close>

text \<open>
  A Go string is a sequence of bytes, which is what \<^typ>\<open>string\<close> is.  The functions of
  package \<^verbatim>\<open>strings\<close> that the command uses are written out on byte lists.
\<close>

fun HasPrefix :: "string \<Rightarrow> string \<Rightarrow> bool" where
  "HasPrefix s [] = True"
| "HasPrefix [] (p # ps) = False"
| "HasPrefix (c # cs) (p # ps) = (c = p \<and> HasPrefix cs ps)"

definition HasSuffix :: "string \<Rightarrow> string \<Rightarrow> bool" where
  "HasSuffix s suffix = HasPrefix (rev s) (rev suffix)"

definition TrimSuffix :: "string \<Rightarrow> string \<Rightarrow> string" where
  "TrimSuffix s suffix =
     (if HasSuffix s suffix then take (length s - length suffix) s else s)"

text \<open>\<^verbatim>\<open>strings.Cut(s, sep)\<close> for a one-byte separator: before, after, found.\<close>

fun Cut :: "string \<Rightarrow> char \<Rightarrow> string \<times> string \<times> bool" where
  "Cut [] sep = ([], [], False)"
| "Cut (c # cs) sep =
     (if c = sep then ([], cs, True)
      else (case Cut cs sep of (b, a, found) \<Rightarrow> (c # b, a, found)))"

text \<open>\<^verbatim>\<open>strings.Index\<close> and \<^verbatim>\<open>strings.LastIndex\<close>: \<open>None\<close> stands for \<open>-1\<close>.\<close>

fun Index :: "string \<Rightarrow> string \<Rightarrow> nat option" where
  "Index [] sub = (if sub = [] then Some 0 else None)"
| "Index (c # cs) sub =
     (if HasPrefix (c # cs) sub then Some 0
      else (case Index cs sub of None \<Rightarrow> None | Some i \<Rightarrow> Some (Suc i)))"

fun LastIndexByte :: "string \<Rightarrow> char \<Rightarrow> nat option" where
  "LastIndexByte [] sep = None"
| "LastIndexByte (c # cs) sep =
     (case LastIndexByte cs sep of
        Some i \<Rightarrow> Some (Suc i)
      | None \<Rightarrow> (if c = sep then Some 0 else None))"

definition Contains :: "string \<Rightarrow> char \<Rightarrow> bool" where
  "Contains s c = (c \<in> set s)"

definition Count :: "string \<Rightarrow> char \<Rightarrow> nat" where
  "Count s c = length (filter (\<lambda>x. x = c) s)"

section \<open>Errors\<close>

text \<open>
  The error values of the Go packages involved: \<^verbatim>\<open>errors.New\<close>, \<^verbatim>\<open>strconv.NumError\<close>
  (function, input, \<^verbatim>\<open>ErrSyntax\<close> or \<^verbatim>\<open>ErrRange\<close>), and the errors of \<^verbatim>\<open>net/url\<close>.
  \<open>InvalidPort p\<close> is \<^verbatim>\<open>fmt.Errorf("invalid port %q after host", p)\<close>.
\<close>

datatype num_err = ErrSyntax | ErrRange

datatype go_error =
    errorString string
  | NumError string string num_err
  | EscapeError string
  | InvalidHostError string
  | InvalidPort string
  | url_Error string string go_error

text \<open>\<^verbatim>\<open>log.Fatalf\<close> logs its message and exits the process.\<close>

datatype fatal = Fatalf string

section \<open>strconv.Atoi\<close>

text \<open>The byte comparison \<^verbatim>\<open>lo <= c && c <= hi\<close>.\<close>

definition inRange :: "char \<Rightarrow> char \<Rightarrow> char \<Rightarrow> bool" where
  "inRange lo hi c = (lo \<le> c \<and> c \<le> hi)"

definition isDigit :: "char \<Rightarrow> bool" where
  "isDigit c = inRange CHR ''0'' CHR ''9'' c"

definition maxUint64 :: int where
  "maxUint64 = 2 ^ 64 - 1"

text \<open>
  The loop of \<^verbatim>\<open>ParseUint(s, 10, 64)\<close>: a byte that is no decimal digit is a syntax error,
  a value beyond \<^verbatim>\<open>1<<64 - 1\<close> a range error, whichever the scan meets first.
\<close>

fun ParseUint_loop :: "int \<Rightarrow> string \<Rightarrow> num_err + int" where
  "ParseUint_loop n [] = Inr n"
| "ParseUint_loop n (c # cs) =
     (if \<not> isDigit c then Inl ErrSyntax
      else let n1 = n * 10 + (of_char c - of_char CHR ''0'')
           in if n1 > maxUint64 then Inl ErrRange else ParseUint_loop n1 cs)"

definition ParseUint :: "string \<Rightarrow> num_err + int" where
  "ParseUint s = (if s = [] then Inl ErrSyntax else ParseUint_loop 0 s)"

text \<open>
  \<^verbatim>\<open>ParseInt(s, 10, 0)\<close> on a 64-bit platform: an optional sign, then \<^verbatim>\<open>ParseUint\<close>, then the
  range of \<^verbatim>\<open>int64\<close>.
\<close>

definition ParseInt :: "string \<Rightarrow> num_err + int" where
  "ParseInt s0 =
     (case s0 of
        [] \<Rightarrow> Inl ErrSyntax
      | c # cs \<Rightarrow>
          let neg = (c = CHR ''-'');
              s = (if c = CHR ''+'' \<or> c = CHR ''-'' then cs else s0)
          in (case ParseUint s of
                Inl e \<Rightarrow> Inl e
              | Inr un \<Rightarrow>
                  if \<not> neg \<and> un \<ge> 2 ^ 63 then Inl ErrRange
                  else if neg \<and> un > 2 ^ 63 then Inl ErrRange
                  else Inr (if neg then - un else un)))"

text \<open>
  \<^verbatim>\<open>Atoi(s)\<close> is \<^verbatim>\<open>ParseInt(s, 10, 0)\<close> with the error's function name replaced; its fast path
  for short inputs computes the same value and the same kind of error.
\<close>

definition Atoi :: "string \<Rightarrow> go_error + int" where
  "Atoi s = (case ParseInt s of
               Inl e \<Rightarrow> Inl (NumError ''Atoi'' s e)
             | Inr i \<Rightarrow> Inr i)"

section \<open>net/url\<close>

text \<open>
  \<^verbatim>\<open>url.Parse\<close> of the Go standard library (as of Go 1.19), which decides which endpoints
  \<^verbatim>\<open>buildEndpointRoutes\<close> skips and when \<^verbatim>\<open>buildForwardURL\<close> exits.  It is written out
  function by function: \<^verbatim>\<open>shouldEscape\<close>, \<^verbatim>\<open>unescape\<close>, \<^verbatim>\<open>escape\<close>, \<^verbatim>\<open>getScheme\<close>,
  \<^verbatim>\<open>parseHost\<close>, \<^verbatim>\<open>parseAuthority\<close>, \<^verbatim>\<open>setPath\<close>, \<^verbatim>\<open>setFragment\<close>, \<^verbatim>\<open>parse\<close> (with
  \<^verbatim>\<open>viaRequest\<close> false) and \<^verbatim>\<open>Parse\<close>.
\<close>

datatype encoding =
    encodePath | encodePathSegment | encodeHost | encodeZone
  | encodeUserPassword | encodeQueryComponent | encodeFragment

record Userinfo =
  username :: string
  password :: string
  passwordSet :: bool

record URL =
  Scheme :: string
  Opaque :: string
  User :: "Userinfo option"
  Host :: string
  Path :: string
  RawPath :: string
  OmitHost :: bool
  ForceQuery :: bool
  RawQuery :: string
  Fragment :: string
  RawFragment :: string

definition new_URL :: URL where
  "new_URL = \<lparr>Scheme = [], Opaque = [], User = None, Host = [], Path = [], RawPath = [],
     OmitHost = False, ForceQuery = False, RawQuery = [], Fragment = [], RawFragment = []\<rparr>"

definition isAlpha :: "char \<Rightarrow> bool" where
  "isAlpha c = (inRange CHR ''a'' CHR ''z'' c \<or> inRange CHR ''A'' CHR ''Z'' c)"

definition ishex :: "char \<Rightarrow> bool" where
  "ishex c = (inRange CHR ''0'' CHR ''9'' c \<or> inRange CHR ''a'' CHR ''f'' c
              \<or> inRange CHR ''A'' CHR ''F'' c)"

definition unhex :: "char \<Rightarrow> nat" where
  "unhex c =
     (if inRange CHR ''0'' CHR ''9'' c then of_char c - of_char CHR ''0''
      else if inRange CHR ''a'' CHR ''f'' c then of_char c - of_char CHR ''a'' + 10
      else if inRange CHR ''A'' CHR ''F'' c then of_char c - of_char CHR ''A'' + 10
      else 0)"

definition upperhex :: string where
  "upperhex = ''0123456789ABCDEF''"

text \<open>The scheme is made of ASCII letters, digits, \<open>+\<close>, \<open>-\<close> and \<open>.\<close> only.\<close>

definition ToLower :: "string \<Rightarrow> string" where
  "ToLower s =
     map (\<lambda>c. if inRange CHR ''A'' CHR ''Z'' c then char_of (of_char c + (32::nat)) else c) s"

definition stringContainsCTLByte :: "string \<Rightarrow> bool" where
  "stringContainsCTLByte s = list_ex (\<lambda>b. b < CHR '' '' \<or> b = CHR 0x7F) s"

definition shouldEscape :: "char \<Rightarrow> encoding \<Rightarrow> bool" where
  "shouldEscape c mode =
     (if isAlpha c \<or> isDigit c then False
      else if (mode = encodeHost \<or> mode = encodeZone)
              \<and> c \<in> set (''!$&'' @ [CHR 0x27] @ ''()*+,;=:[]<>'' @ [CHR 0x22]) then False
      else if c \<in> set ''-_.~'' then False
      else if c \<in> set ''$&+,/:;=?@'' \<and> mode = encodePath then c = CHR ''?''
      else if c \<in> set ''$&+,/:;=?@'' \<and> mode = encodePathSegment
        then c = CHR ''/'' \<or> c = CHR '';'' \<or> c = CHR '','' \<or> c = CHR ''?''
      else if c \<in> set ''$&+,/:;=?@'' \<and> mode = encodeUserPassword
        then c = CHR ''@'' \<or> c = CHR ''/'' \<or> c = CHR ''?'' \<or> c = CHR '':''
      else if c \<in> set ''$&+,/:;=?@'' \<and> mode = encodeQueryComponent then True
      else if c \<in> set ''$&+,/:;=?@'' \<and> mode = encodeFragment then False
      else if mode = encodeFragment \<and> c \<in> set ''!()*'' then False
      else True)"

fun unescape :: "string \<Rightarrow> encoding \<Rightarrow> go_error + string" where
  "unescape [] mode = Inr []"
| "unescape (c # cs) mode =
     (if c = CHR ''%'' then
        (case cs of
           h1 # h2 # rest \<Rightarrow>
             if \<not> ishex h1 \<or> \<not> ishex h2 then Inl (EscapeError (take 3 (c # cs)))
             else if mode = encodeHost \<and> unhex h1 < 8 \<and> [c, h1, h2] \<noteq> ''%25''
               then Inl (EscapeError [c, h1, h2])
             else if mode = encodeZone \<and> [c, h1, h2] \<noteq> ''%25''
                     \<and> char_of (unhex h1 * 16 + unhex h2) \<noteq> CHR '' ''
                     \<and> shouldEscape (char_of (unhex h1 * 16 + unhex h2)) encodeHost
               then Inl (EscapeError [c, h1, h2])
             else (case unescape rest mode of
                     Inl e \<Rightarrow> Inl e
                   | Inr t \<Rightarrow> Inr (char_of (unhex h1 * 16 + unhex h2) # t))
         | _ \<Rightarrow> Inl (EscapeError (take 3 (c # cs))))
      else if c = CHR ''+'' then
        (case unescape cs mode of
           Inl e \<Rightarrow> Inl e
         | Inr t \<Rightarrow> Inr ((if mode = encodeQueryComponent then CHR '' '' else CHR ''+'') # t))
      else if (mode = encodeHost \<or> mode = encodeZone) \<and> c < CHR 0x80
              \<and> shouldEscape c encodeHost
        then Inl (InvalidHostError [c])
      else (case unescape cs mode of Inl e \<Rightarrow> Inl e | Inr t \<Rightarrow> Inr (c # t)))"

definition escape :: "string \<Rightarrow> encoding \<Rightarrow> string" where
  "escape s mode =
     concat (map (\<lambda>c. if shouldEscape c mode then
                         (if c = CHR '' '' \<and> mode = encodeQueryComponent then ''+''
                          else [CHR ''%'', upperhex ! (of_char c div 16),
                                upperhex ! (of_char c mod 16)])
                       else [c]) s)"

text \<open>\<^verbatim>\<open>getScheme\<close>: \<open>pre\<close> is \<^verbatim>\<open>rawURL[:i]\<close>, the bytes the loop has passed.\<close>

fun getScheme_loop :: "string \<Rightarrow> string \<Rightarrow> go_error + string \<times> string" where
  "getScheme_loop pre [] = Inr ([], pre)"
| "getScheme_loop pre (c # cs) =
     (if isAlpha c then getScheme_loop (pre @ [c]) cs
      else if isDigit c \<or> c = CHR ''+'' \<or> c = CHR ''-'' \<or> c = CHR ''.'' then
        (if pre = [] then Inr ([], pre @ c # cs) else getScheme_loop (pre @ [c]) cs)
      else if c = CHR '':'' then
        (if pre = [] then Inl (errorString ''missing protocol scheme'') else Inr (pre, cs))
      else Inr ([], pre @ c # cs))"

definition getScheme :: "string \<Rightarrow> go_error + string \<times> string" where
  "getScheme rawURL = getScheme_loop [] rawURL"

definition validOptionalPort :: "string \<Rightarrow> bool" where
  "validOptionalPort port =
     (case port of
        [] \<Rightarrow> True
      | c # cs \<Rightarrow> c = CHR '':'' \<and> list_all isDigit cs)"

definition validUserinfo :: "string \<Rightarrow> bool" where
  "validUserinfo s =
     list_all (\<lambda>r. isAlpha r \<or> isDigit r
                  \<or> r \<in> set (''-._:~!$&'' @ [CHR 0x27] @ ''()*+,;=%@'')) s"

definition parseHost :: "string \<Rightarrow> go_error + string" where
  "parseHost host =
     (if HasPrefix host ''['' then
        (case LastIndexByte host CHR '']'' of
           None \<Rightarrow> Inl (errorString (''missing '' @ [CHR 0x27] @ '']'' @ [CHR 0x27] @ '' in host''))
         | Some i \<Rightarrow>
             let colonPort = drop (i + 1) host
             in if \<not> validOptionalPort colonPort then Inl (InvalidPort colonPort)
                else (case Index (take i host) ''%25'' of
                        Some zone \<Rightarrow>
                          (case unescape (take zone host) encodeHost of
                             Inl e \<Rightarrow> Inl e
                           | Inr host1 \<Rightarrow>
                               (case unescape (drop zone (take i host)) encodeZone of
                                  Inl e \<Rightarrow> Inl e
                                | Inr host2 \<Rightarrow>
                                    (case unescape (drop i host) encodeHost of
                                       Inl e \<Rightarrow> Inl e
                                     | Inr host3 \<Rightarrow> Inr (host1 @ host2 @ host3))))
                      | None \<Rightarrow> unescape host encodeHost))
      else
        (case LastIndexByte host CHR '':'' of
           Some i \<Rightarrow>
             if \<not> validOptionalPort (drop i host) then Inl (InvalidPort (drop i host))
             else unescape host encodeHost
         | None \<Rightarrow> unescape host encodeHost))"

definition parseAuthority :: "string \<Rightarrow> go_error + Userinfo option \<times> string" where
  "parseAuthority authority =
     (case LastIndexByte authority CHR ''@'' of
        None \<Rightarrow>
          (case parseHost authority of Inl e \<Rightarrow> Inl e | Inr host \<Rightarrow> Inr (None, host))
      | Some i \<Rightarrow>
          (case parseHost (drop (i + 1) authority) of
             Inl e \<Rightarrow> Inl e
           | Inr host \<Rightarrow>
               let userinfo = take i authority
               in if \<not> validUserinfo userinfo
                  then Inl (errorString ''net/url: invalid userinfo'')
                  else if \<not> Contains userinfo CHR '':'' then
                    (case unescape userinfo encodeUserPassword of
                       Inl e \<Rightarrow> Inl e
                     | Inr u \<Rightarrow>
                         Inr (Some \<lparr>username = u, password = [], passwordSet = False\<rparr>, host))
                  else
                    (case Cut userinfo CHR '':'' of
                       (username0, password0, _) \<Rightarrow>
                         (case unescape username0 encodeUserPassword of
                            Inl e \<Rightarrow> Inl e
                          | Inr u \<Rightarrow>
                              (case unescape password0 encodeUserPassword of
                                 Inl e \<Rightarrow> Inl e
                               | Inr p \<Rightarrow>
                                   Inr (Some \<lparr>username = u, password = p,
                                              passwordSet = True\<rparr>, host))))))"

definition setPath :: "URL \<Rightarrow> string \<Rightarrow> go_error + URL" where
  "setPath u p =
     (case unescape p encodePath of
        Inl e \<Rightarrow> Inl e
      | Inr path \<Rightarrow>
          Inr (u\<lparr>Path := path,
                 RawPath := (if p = escape path encodePath then [] else p)\<rparr>))"

definition setFragment :: "URL \<Rightarrow> string \<Rightarrow> go_error + URL" where
  "setFragment u f =
     (case unescape f encodeFragment of
        Inl e \<Rightarrow> Inl e
      | Inr frag \<Rightarrow>
          Inr (u\<lparr>Fragment := frag,
                 RawFragment := (if f = escape frag encodeFragment then [] else f)\<rparr>))"

definition parse :: "string \<Rightarrow> go_error + URL" where
  "parse rawURL =
     (if stringContainsCTLByte rawURL
        then Inl (errorString ''net/url: invalid control character in URL'')
      else if rawURL = ''*'' then Inr (new_URL\<lparr>Path := ''*''\<rparr>)
      else
        (case getScheme rawURL of
           Inl e \<Rightarrow> Inl e
         | Inr (scheme, rest0) \<Rightarrow>
             let url0 = new_URL\<lparr>Scheme := ToLower scheme\<rparr>;
                 url = (if HasSuffix rest0 ''?'' \<and> Count rest0 CHR ''?'' = 1
                        then url0\<lparr>ForceQuery := True\<rparr>
                        else url0\<lparr>RawQuery := fst (snd (Cut rest0 CHR ''?''))\<rparr>);
                 rest = (if HasSuffix rest0 ''?'' \<and> Count rest0 CHR ''?'' = 1
                         then butlast rest0
                         else fst (Cut rest0 CHR ''?''))
             in if \<not> HasPrefix rest ''/'' \<and> Scheme url \<noteq> [] then Inr (url\<lparr>Opaque := rest\<rparr>)
                else if \<not> HasPrefix rest ''/'' \<and> Contains (fst (Cut rest CHR ''/'')) CHR '':''
                  then Inl (errorString ''first path segment in URL cannot contain colon'')
                else if (Scheme url \<noteq> [] \<or> \<not> HasPrefix rest ''///'') \<and> HasPrefix rest ''//''
                  then
                    (let authority0 = drop 2 rest;
                         authority = (case Index authority0 ''/'' of
                                        Some i \<Rightarrow> take i authority0 | None \<Rightarrow> authority0);
                         rest1 = (case Index authority0 ''/'' of
                                    Some i \<Rightarrow> drop i authority0 | None \<Rightarrow> [])
                     in (case parseAuthority authority of
                           Inl e \<Rightarrow> Inl e
                         | Inr (user, host) \<Rightarrow> setPath (url\<lparr>User := user, Host := host\<rparr>) rest1))
                else if Scheme url \<noteq> [] \<and> HasPrefix rest ''/''
                  then setPath (url\<lparr>OmitHost := True\<rparr>) rest
                else setPath url rest))"

definition url_Parse :: "string \<Rightarrow> go_error + URL" where
  "url_Parse rawURL =
     (case Cut rawURL CHR ''#'' of
        (u, frag, _) \<Rightarrow>
          (case parse u of
             Inl e \<Rightarrow> Inl (url_Error ''parse'' u e)
           | Inr url \<Rightarrow>
               if frag = [] then Inr url
               else (case setFragment url frag of
                       Inl e \<Rightarrow> Inl (url_Error ''parse'' rawURL e)
                     | Inr url1 \<Rightarrow> Inr url1)))"

section \<open>parseURL\<close>

text \<open>
  \<^verbatim>\<open>parseURL\<close> of the listen command: a bare number is a port of localhost, a leading slash
  a path on localhost, and the scheme \<^verbatim>\<open>http://\<close> is put in front unless \<^verbatim>\<open>http://\<close> or
  \<^verbatim>\<open>https://\<close> is there already.
\<close>

definition parseURL :: "string \<Rightarrow> string" where
  "parseURL url =
     (let url1 = (case Atoi url of Inr _ \<Rightarrow> ''localhost:'' @ url | Inl _ \<Rightarrow> url);
          url2 = (if HasPrefix url1 ''/'' then ''localhost'' @ url1 else url1)
      in if \<not> HasPrefix url2 ''http://'' \<and> \<not> HasPrefix url2 ''https://''
         then ''http://'' @ url2 else url2)"

section \<open>The listen command\<close>

text \<open>The fields of \<^verbatim>\<open>requests.WebhookEndpoint\<close> and \<^verbatim>\<open>proxy.EndpointRoute\<close> that the command uses.\<close>

record WebhookEndpoint =
  endpoint_URL :: string
  Application :: string
  EnabledEvents :: "string list"

record EndpointRoute =
  route_URL :: string
  route_ForwardHeaders :: "string list"
  Connect :: bool
  EventTypes :: "string list"

text \<open>
  \<^verbatim>\<open>buildForwardURL\<close>: scheme and host of the forward URL, its path without one trailing
  slash, then the path of the destination.  A forward URL that \<^verbatim>\<open>url.Parse\<close> rejects ends
  the process.
\<close>

definition buildForwardURL :: "string \<Rightarrow> URL \<Rightarrow> fatal + string" where
  "buildForwardURL forwardURL destination =
     (case url_Parse forwardURL of
        Inl err \<Rightarrow> Inl (Fatalf (''Provided forward url cannot be parsed: '' @ forwardURL))
      | Inr f \<Rightarrow>
          Inr (Scheme f @ ''://'' @ Host f @ TrimSuffix (Path f) ''/'' @ Path destination))"

text \<open>
  The loop of \<^verbatim>\<open>buildEndpointRoutes\<close>, with the slice built so far as accumulator: an
  endpoint whose URL does not parse is passed over; the others get a route from the forward
  URL of their kind, appended at the end.
\<close>

fun buildEndpointRoutes_loop ::
  "EndpointRoute list \<Rightarrow> WebhookEndpoint list \<Rightarrow> string \<Rightarrow> string \<Rightarrow> string list \<Rightarrow> string list
     \<Rightarrow> fatal + EndpointRoute list" where
  "buildEndpointRoutes_loop endpointRoutes [] forwardURL forwardConnectURL
       forwardHeaders forwardConnectHeaders = Inr endpointRoutes"
| "buildEndpointRoutes_loop endpointRoutes (endpoint # rest) forwardURL forwardConnectURL
       forwardHeaders forwardConnectHeaders =
     (case url_Parse (endpoint_URL endpoint) of
        Inl err \<Rightarrow>
          buildEndpointRoutes_loop endpointRoutes rest forwardURL forwardConnectURL
            forwardHeaders forwardConnectHeaders
      | Inr u \<Rightarrow>
          if Application endpoint = [] then
            (case buildForwardURL forwardURL u of
               Inl f \<Rightarrow> Inl f
             | Inr dest \<Rightarrow>
                 buildEndpointRoutes_loop
                   (endpointRoutes @
                      [\<lparr>route_URL = dest, route_ForwardHeaders = forwardHeaders,
                        Connect = False, EventTypes = EnabledEvents endpoint\<rparr>])
                   rest forwardURL forwardConnectURL forwardHeaders forwardConnectHeaders)
          else
            (case buildForwardURL forwardConnectURL u of
               Inl f \<Rightarrow> Inl f
             | Inr dest \<Rightarrow>
                 buildEndpointRoutes_loop
                   (endpointRoutes @
                      [\<lparr>route_URL = dest, route_ForwardHeaders = forwardConnectHeaders,
                        Connect = True, EventTypes = EnabledEvents endpoint\<rparr>])
                   rest forwardURL forwardConnectURL forwardHeaders forwardConnectHeaders))"

definition buildEndpointRoutes ::
  "WebhookEndpoint list \<Rightarrow> string \<Rightarrow> string \<Rightarrow> string list \<Rightarrow> string list
     \<Rightarrow> fatal + EndpointRoute list" where
  "buildEndpointRoutes endpoints forwardURL forwardConnectURL forwardHeaders
       forwardConnectHeaders =
     buildEndpointRoutes_loop [] endpoints forwardURL forwardConnectURL
       forwardHeaders forwardConnectHeaders"

text \<open>The table \<^verbatim>\<open>validEvents\<close> of \<^verbatim>\<open>events_list.go\<close>, a \<^verbatim>\<open>map[string]bool\<close>.\<close>

definition validEvents :: "string \<rightharpoonup> bool" where
  "validEvents = map_of [
    (''*'', True), (''account.application.authorized'', True),
    (''account.application.deauthorized'', True), (''account.external_account.created'', True),
    (''account.external_account.deleted'', True), (''account.external_account.updated'', True),
    (''account.updated'', True), (''application_fee.created'', True),
    (''application_fee.refund.updated'', True), (''application_fee.refunded'', True),
    (''balance.available'', True), (''billing_portal.configuration.created'', True),
    (''billing_portal.configuration.updated'', True),
    (''billing_portal.session.created'', True), (''capability.updated'', True),
    (''cash_balance.funds_available'', True), (''charge.captured'', True),
    (''charge.dispute.closed'', True), (''charge.dispute.created'', True),
    (''charge.dispute.funds_reinstated'', True), (''charge.dispute.funds_withdrawn'', True),
    (''charge.dispute.updated'', True), (''charge.expired'', True), (''charge.failed'', True),
    (''charge.pending'', True), (''charge.refund.updated'', True), (''charge.refunded'', True),
    (''charge.succeeded'', True), (''charge.updated'', True),
    (''checkout.session.async_payment_failed'', True),
    (''checkout.session.async_payment_succeeded'', True),
    (''checkout.session.completed'', True), (''checkout.session.expired'', True),
    (''coupon.created'', True), (''coupon.deleted'', True), (''coupon.updated'', True),
    (''credit_note.created'', True), (''credit_note.updated'', True),
    (''credit_note.voided'', True), (''customer.created'', True), (''customer.deleted'', True),
    (''customer.discount.created'', True), (''customer.discount.deleted'', True),
    (''customer.discount.updated'', True), (''customer.source.created'', True),
    (''customer.source.deleted'', True), (''customer.source.expiring'', True),
    (''customer.source.updated'', True), (''customer.subscription.created'', True),
    (''customer.subscription.deleted'', True),
    (''customer.subscription.pending_update_applied'', True),
    (''customer.subscription.pending_update_expired'', True),
    (''customer.subscription.trial_will_end'', True), (''customer.subscription.updated'', True),
    (''customer.tax_id.created'', True), (''customer.tax_id.deleted'', True),
    (''customer.tax_id.updated'', True), (''customer.updated'', True), (''file.created'', True),
    (''identity.verification_session.canceled'', True),
    (''identity.verification_session.created'', True),
    (''identity.verification_session.processing'', True),
    (''identity.verification_session.redacted'', True),
    (''identity.verification_session.requires_input'', True),
    (''identity.verification_session.verified'', True), (''invoice.created'', True),
    (''invoice.deleted'', True), (''invoice.finalization_failed'', True),
    (''invoice.finalized'', True), (''invoice.marked_uncollectible'', True),
    (''invoice.paid'', True), (''invoice.payment_action_required'', True),
    (''invoice.payment_failed'', True), (''invoice.payment_succeeded'', True),
    (''invoice.sent'', True), (''invoice.upcoming'', True), (''invoice.updated'', True),
    (''invoice.voided'', True), (''invoiceitem.created'', True),
    (''invoiceitem.deleted'', True), (''invoiceitem.updated'', True),
    (''issuing_authorization.created'', True), (''issuing_authorization.request'', True),
    (''issuing_authorization.updated'', True), (''issuing_card.created'', True),
    (''issuing_card.updated'', True), (''issuing_cardholder.created'', True),
    (''issuing_cardholder.updated'', True), (''issuing_dispute.closed'', True),
    (''issuing_dispute.created'', True), (''issuing_dispute.funds_reinstated'', True),
    (''issuing_dispute.submitted'', True), (''issuing_dispute.updated'', True),
    (''issuing_transaction.created'', True), (''issuing_transaction.updated'', True),
    (''mandate.updated'', True), (''order.created'', True), (''order.payment_failed'', True),
    (''order.payment_succeeded'', True), (''order.updated'', True),
    (''order_return.created'', True), (''payment_intent.amount_capturable_updated'', True),
    (''payment_intent.canceled'', True), (''payment_intent.created'', True),
    (''payment_intent.partially_funded'', True), (''payment_intent.payment_failed'', True),
    (''payment_intent.processing'', True), (''payment_intent.requires_action'', True),
    (''payment_intent.succeeded'', True), (''payment_link.created'', True),
    (''payment_link.updated'', True), (''payment_method.attached'', True),
    (''payment_method.automatically_updated'', True), (''payment_method.detached'', True),
    (''payment_method.updated'', True), (''payout.canceled'', True), (''payout.created'', True),
    (''payout.failed'', True), (''payout.paid'', True), (''payout.updated'', True),
    (''person.created'', True), (''person.deleted'', True), (''person.updated'', True),
    (''plan.created'', True), (''plan.deleted'', True), (''plan.updated'', True),
    (''price.created'', True), (''price.deleted'', True), (''price.updated'', True),
    (''product.created'', True), (''product.deleted'', True), (''product.updated'', True),
    (''promotion_code.created'', True), (''promotion_code.updated'', True),
    (''quote.accepted'', True), (''quote.canceled'', True), (''quote.created'', True),
    (''quote.finalized'', True), (''radar.early_fraud_warning.created'', True),
    (''radar.early_fraud_warning.updated'', True), (''recipient.created'', True),
    (''recipient.deleted'', True), (''recipient.updated'', True),
    (''reporting.report_run.failed'', True), (''reporting.report_run.succeeded'', True),
    (''reporting.report_type.updated'', True), (''review.closed'', True),
    (''review.opened'', True), (''setup_intent.canceled'', True),
    (''setup_intent.created'', True), (''setup_intent.requires_action'', True),
    (''setup_intent.setup_failed'', True), (''setup_intent.succeeded'', True),
    (''sigma.scheduled_query_run.created'', True), (''sku.created'', True),
    (''sku.deleted'', True), (''sku.updated'', True), (''source.canceled'', True),
    (''source.chargeable'', True), (''source.failed'', True),
    (''source.mandate_notification'', True), (''source.refund_attributes_required'', True),
    (''source.transaction.created'', True), (''source.transaction.updated'', True),
    (''subscription_schedule.aborted'', True), (''subscription_schedule.canceled'', True),
    (''subscription_schedule.completed'', True), (''subscription_schedule.created'', True),
    (''subscription_schedule.expiring'', True), (''subscription_schedule.released'', True),
    (''subscription_schedule.updated'', True), (''tax_rate.created'', True),
    (''tax_rate.updated'', True), (''terminal.reader.action_failed'', True),
    (''terminal.reader.action_succeeded'', True), (''test_helpers.test_clock.advancing'', True),
    (''test_helpers.test_clock.created'', True), (''test_helpers.test_clock.deleted'', True),
    (''test_helpers.test_clock.internal_failure'', True),
    (''test_helpers.test_clock.ready'', True), (''topup.canceled'', True),
    (''topup.created'', True), (''topup.failed'', True), (''topup.reversed'', True),
    (''topup.succeeded'', True), (''transfer.created'', True), (''transfer.failed'', True),
    (''transfer.paid'', True), (''transfer.reversed'', True), (''transfer.updated'', True)]"

text \<open>The flags of the command (\<^verbatim>\<open>listenCmd\<close>), and their defaults in \<^verbatim>\<open>newListenCmd\<close>.\<close>

record listenCmd =
  forwardURL :: string
  forwardHeaders :: "string list"
  forwardConnectHeaders :: "string list"
  forwardConnectURL :: string
  events :: "string list"
  latestAPIVersion :: bool
  livemode :: bool
  useConfiguredWebhooks :: bool
  printJSON :: bool
  skipVerify :: bool
  onlyPrintSecret :: bool
  skipUpdate :: bool
  apiBaseURL :: string
  noWSS :: bool

definition newListenCmd :: listenCmd where
  "newListenCmd =
     \<lparr>forwardURL = [], forwardHeaders = [], forwardConnectHeaders = [],
      forwardConnectURL = [], events = [''*''], latestAPIVersion = False, livemode = False,
      useConfiguredWebhooks = False, printJSON = False, skipVerify = False,
      onlyPrintSecret = False, skipUpdate = False, apiBaseURL = [], noWSS = False\<rparr>"

text \<open>
  What the command reads from outside: the profile's device name and API key, the session
  secret, the endpoint listing of the account (\<^verbatim>\<open>requests.WebhookEndpointsList\<close>, by API
  base, API version and key), and the constant \<^verbatim>\<open>stripe.DefaultAPIBaseURL\<close>.
\<close>

record world =
  GetDeviceName :: "go_error + string"
  GetAPIKey :: "bool \<Rightarrow> go_error + string"
  GetSessionSecret :: "string \<Rightarrow> string \<Rightarrow> string \<Rightarrow> go_error + string"
  WebhookEndpointsList :: "string \<Rightarrow> string \<Rightarrow> string \<Rightarrow> WebhookEndpoint list"
  DefaultAPIBaseURL :: string

text \<open>\<^verbatim>\<open>proxy.Config\<close> as the command fills it (the logger apart).\<close>

record proxy_Config =
  DeviceName :: string
  Key :: string
  ForwardURL :: string
  ForwardHeaders :: "string list"
  ForwardConnectURL :: string
  ForwardConnectHeaders :: "string list"
  EndpointRoutes :: "EndpointRoute list"
  APIBaseURL :: string
  WebSocketFeature :: string
  PrintJSON :: bool
  UseLatestAPIVersion :: bool
  SkipVerify :: bool
  NoWSS :: bool
  Events :: "string list"

definition webhooksWebSocketFeature :: string where
  "webhooksWebSocketFeature = ''webhooks''"

text \<open>
  How a run of the command ends: it returns an error, it returns \<^verbatim>\<open>nil\<close> after printing the
  secret, \<^verbatim>\<open>log.Fatalf\<close> exits the process, or the proxy is initialised with a configuration
  and run (the command then returns what \<^verbatim>\<open>Run\<close> returns).
\<close>

datatype outcome =
    Return_error go_error
  | Return_nil
  | Exit fatal
  | Proxy_Run proxy_Config

definition warning :: "string \<Rightarrow> string" where
  "warning event =
     ''Warning: You'' @ [CHR 0x27] @ ''re attempting to listen for '' @ [CHR 0x22] @ event
       @ [CHR 0x22] @ '', which isn'' @ [CHR 0x27] @ ''t a valid event'' @ [CHR 0x0A]"

text \<open>The loop over \<^verbatim>\<open>lc.events\<close>: what it prints.\<close>

fun eventWarnings :: "string list \<Rightarrow> string list" where
  "eventWarnings [] = []"
| "eventWarnings (event # rest) =
     (if validEvents event = None then warning event # eventWarnings rest
      else eventWarnings rest)"

definition getEndpointsFromAPI :: "world \<Rightarrow> listenCmd \<Rightarrow> string \<Rightarrow> WebhookEndpoint list" where
  "getEndpointsFromAPI w lc secretKey =
     WebhookEndpointsList w
       (if apiBaseURL lc = [] then DefaultAPIBaseURL w else apiBaseURL lc)
       ''2019-03-14'' secretKey"

text \<open>The call of \<^verbatim>\<open>buildEndpointRoutes\<close> in \<^verbatim>\<open>runListenCmd\<close>, on the normalised flags.\<close>

definition resolveRoutes :: "WebhookEndpoint list \<Rightarrow> listenCmd \<Rightarrow> fatal + EndpointRoute list" where
  "resolveRoutes endpoints lc =
     buildEndpointRoutes endpoints (parseURL (forwardURL lc)) (parseURL (forwardConnectURL lc))
       (forwardHeaders lc) (forwardConnectHeaders lc)"

definition proxy_Init :: "listenCmd \<Rightarrow> string \<Rightarrow> string \<Rightarrow> EndpointRoute list \<Rightarrow> proxy_Config" where
  "proxy_Init lc deviceName key endpointRoutes =
     \<lparr>DeviceName = deviceName, Key = key, ForwardURL = forwardURL lc,
      ForwardHeaders = forwardHeaders lc, ForwardConnectURL = forwardConnectURL lc,
      ForwardConnectHeaders = forwardConnectHeaders lc, EndpointRoutes = endpointRoutes,
      APIBaseURL = apiBaseURL lc, WebSocketFeature = webhooksWebSocketFeature,
      PrintJSON = printJSON lc, UseLatestAPIVersion = latestAPIVersion lc,
      SkipVerify = skipVerify lc, NoWSS = noWSS lc, Events = events lc\<rparr>"

text \<open>
  \<^verbatim>\<open>runListenCmd\<close>: what it prints on standard output, and how it ends.  The check for a
  newer version of the tool, which touches nothing else, is left out.
\<close>

definition runListenCmd :: "world \<Rightarrow> listenCmd \<Rightarrow> string list \<times> outcome" where
  "runListenCmd w lc =
     (case GetDeviceName w of
        Inl err \<Rightarrow> ([], Return_error err)
      | Inr deviceName \<Rightarrow>
     (case GetAPIKey w (livemode lc) of
        Inl err \<Rightarrow> ([], Return_error err)
      | Inr key \<Rightarrow>
     if onlyPrintSecret lc then
       (case GetSessionSecret w deviceName key (apiBaseURL lc) of
          Inl err \<Rightarrow> ([], Return_error err)
        | Inr secret \<Rightarrow> ([secret @ [CHR 0x0A]], Return_nil))
     else
       let out = eventWarnings (events lc)
       in if useConfiguredWebhooks lc \<and> length (forwardURL lc) > 0 then
            if HasPrefix (forwardURL lc) ''/'' then
              (out, Return_error (errorString
                 ''--forward-to cannot be a relative path when loading webhook endpoints from the API''))
            else if HasPrefix (forwardConnectURL lc) ''/'' then
              (out, Return_error (errorString
                 ''--forward-connect-to cannot be a relative path when loading webhook endpoints from the API''))
            else
              let endpoints = getEndpointsFromAPI w lc key
              in if length endpoints = 0 then
                   (out, Return_error (errorString
                      ''You have not defined any webhook endpoints on your account. Go to the Stripe Dashboard to add some: https://dashboard.stripe.com/test/webhooks''))
                 else
                   (case resolveRoutes endpoints lc of
                      Inl f \<Rightarrow> (out, Exit f)
                    | Inr endpointRoutes \<Rightarrow>
                        (out, Proxy_Run (proxy_Init lc deviceName key endpointRoutes)))
          else if useConfiguredWebhooks lc \<and> length (forwardURL lc) = 0 then
            (out, Return_error (errorString
               ''--load-from-webhooks-api requires a location to forward to with --forward-to''))
          else (out, Proxy_Run (proxy_Init lc deviceName key []))))"

text \<open>
  For the proofs: the part of \<^verbatim>\<open>parse\<close> that follows the splitting of the query, as a
  function of the URL filled so far and of what is left of the input.
\<close>

definition parse_rest :: "URL \<Rightarrow> string \<Rightarrow> go_error + URL" where
  "parse_rest url rest =
     (if \<not> HasPrefix rest ''/'' \<and> Scheme url \<noteq> [] then Inr (url\<lparr>Opaque := rest\<rparr>)
      else if \<not> HasPrefix rest ''/'' \<and> Contains (fst (Cut rest CHR ''/'')) CHR '':''
        then Inl (errorString ''first path segment in URL cannot contain colon'')
      else if (Scheme url \<noteq> [] \<or> \<not> HasPrefix rest ''///'') \<and> HasPrefix rest ''//''
        then
          (let authority0 = drop 2 rest;
               authority = (case Index authority0 ''/'' of
                              Some i \<Rightarrow> take i authority0 | None \<Rightarrow> authority0);
               rest1 = (case Index authority0 ''/'' of
                          Some i \<Rightarrow> drop i authority0 | None \<Rightarrow> [])
           in (case parseAuthority authority of
                 Inl e \<Rightarrow> Inl e
               | Inr (user, host) \<Rightarrow> setPath (url\<lparr>User := user, Host := host\<rparr>) rest1))
      else if Scheme url \<noteq> [] \<and> HasPrefix rest ''/''
        then setPath (url\<lparr>OmitHost := True\<rparr>) rest
      else setPath url rest)"

text \<open>
  Two predicates for the statements below: \<^verbatim>\<open>url.Parse\<close> accepts a string; a string starts
  with one of the two schemes that \<^verbatim>\<open>parseURL\<close> knows.
\<close>

definition parses :: "string \<Rightarrow> bool" where
  "parses s = (case url_Parse s of Inl err \<Rightarrow> False | Inr u \<Rightarrow> True)"

definition scheme_qualified :: "string \<Rightarrow> bool" where
  "scheme_qualified s = (HasPrefix s ''http://'' \<or> HasPrefix s ''https://'')"

section \<open>Properties\<close>

subsection \<open>The normaliser\<close>

lemma HasPrefix_append: "HasPrefix (p @ s) p"
  by (induction p) simp_all

lemma HasPrefix_iff: "HasPrefix s p \<longleftrightarrow> (\<exists>r. s = p @ r)"
  by (induction s p rule: HasPrefix.induct) auto

lemma Atoi_h: "Atoi (CHR ''h'' # s) = Inl (NumError ''Atoi'' (CHR ''h'' # s) ErrSyntax)"
  by (simp add: Atoi_def ParseInt_def ParseUint_def isDigit_def inRange_def)

lemma parseURL_scheme:
  "HasPrefix (parseURL url) ''http://'' \<or> HasPrefix (parseURL url) ''https://''"
  unfolding parseURL_def Let_def
  using HasPrefix_append [of "''http://''"] by (simp split: sum.split)

lemma parseURL_fixed:
  assumes "HasPrefix y ''http://'' \<or> HasPrefix y ''https://''"
  shows "parseURL y = y"
proof -
  from assms obtain r where y: "y = CHR ''h'' # r"
    by (auto simp: HasPrefix_iff)
  have "Atoi y = Inl (NumError ''Atoi'' y ErrSyntax)"
    unfolding y by (rule Atoi_h)
  moreover have "\<not> HasPrefix y ''/''"
    unfolding y by simp
  ultimately show ?thesis
    using assms by (simp add: parseURL_def)
qed

text \<open>
  C4, as the code has it.  \<^verbatim>\<open>parseURL\<close> returns a string for every input, with no error
  path; that string always starts with \<^verbatim>\<open>http://\<close> or \<^verbatim>\<open>https://\<close>, and it is the input
  itself behind nothing, \<^verbatim>\<open>http://\<close>, \<^verbatim>\<open>http://localhost\<close> or \<^verbatim>\<open>http://localhost:\<close>.  The
  input is not checked any further.
\<close>

theorem parseURL_scheme_qualified:
  "(HasPrefix (parseURL url) ''http://'' \<or> HasPrefix (parseURL url) ''https://'')
   \<and> (parseURL url = url \<or> parseURL url = ''http://'' @ url
        \<or> parseURL url = ''http://localhost'' @ url
        \<or> parseURL url = ''http://localhost:'' @ url)"
proof
  show "HasPrefix (parseURL url) ''http://'' \<or> HasPrefix (parseURL url) ''https://''"
    by (rule parseURL_scheme)
  show "parseURL url = url \<or> parseURL url = ''http://'' @ url
        \<or> parseURL url = ''http://localhost'' @ url
        \<or> parseURL url = ''http://localhost:'' @ url"
    by (cases "Atoi url") (auto simp: parseURL_def)
qed

text \<open>
  C4 as stated fails: the empty input gives \<^verbatim>\<open>http://\<close>, a scheme with an empty host, and
  the input \<^verbatim>\<open>a b\<close> gives \<^verbatim>\<open>http://a b\<close>, which \<^verbatim>\<open>url.Parse\<close> itself rejects.
\<close>

theorem parseURL_wellformed_counterexample:
  "parseURL [] = ''http://''
   \<and> map_sum id Host (url_Parse (parseURL [])) = Inr []
   \<and> url_Parse (parseURL ''a b'')
       = Inl (url_Error ''parse'' ''http://a b'' (InvalidHostError '' ''))"
  by code_simp

text \<open>
  C6.  For every string that \<^verbatim>\<open>strconv.Atoi\<close> accepts, that is, that parses entirely as an
  integer, \<^verbatim>\<open>parseURL\<close> returns \<^verbatim>\<open>http://localhost:\<close> followed by the string.
\<close>

theorem parseURL_port: "Atoi n = Inr i \<Longrightarrow> parseURL n = ''http://localhost:'' @ n"
  by (simp add: parseURL_def)

theorem parseURL_port_witness:
  "Atoi ''3000'' = Inr 3000 \<and> parseURL ''3000'' = ''http://localhost:3000''"
proof -
  have a: "Atoi ''3000'' = Inr 3000" by code_simp
  from parseURL_port [OF a] a show ?thesis by simp
qed

text \<open>
  C8.  \<^verbatim>\<open>parseURL\<close> is idempotent: its result starts with a scheme already, is no number
  and no path, and so is returned as it is.
\<close>

theorem parseURL_idempotent: "parseURL (parseURL x) = parseURL x"
  by (rule parseURL_fixed) (rule parseURL_scheme)

subsection \<open>The composer\<close>

lemma url_Parse_3000_slash:
  "url_Parse ''http://localhost:3000/''
     = Inr (new_URL\<lparr>Scheme := ''http'', Host := ''localhost:3000'', Path := ''/''\<rparr>)"
  by code_simp

lemma url_Parse_3000:
  "url_Parse ''http://localhost:3000''
     = Inr (new_URL\<lparr>Scheme := ''http'', Host := ''localhost:3000''\<rparr>)"
  by code_simp

text \<open>
  C7.  For a destination whose path is \<^verbatim>\<open>/v1/hook\<close>, the forward URLs
  \<^verbatim>\<open>http://localhost:3000/\<close> and \<^verbatim>\<open>http://localhost:3000\<close> both compose to
  \<^verbatim>\<open>http://localhost:3000/v1/hook\<close>: the same with and without the trailing slash of the
  base, and with a single separator.
\<close>

theorem buildForwardURL_trailing_slash:
  "buildForwardURL ''http://localhost:3000/'' (d\<lparr>Path := ''/v1/hook''\<rparr>)
     = Inr ''http://localhost:3000/v1/hook''
   \<and> buildForwardURL ''http://localhost:3000'' (d\<lparr>Path := ''/v1/hook''\<rparr>)
     = Inr ''http://localhost:3000/v1/hook''"
  by (simp add: buildForwardURL_def url_Parse_3000 url_Parse_3000_slash new_URL_def
        TrimSuffix_def HasSuffix_def)

lemma getScheme_loop_query:
  "getScheme_loop pre (p @ CHR ''?'' # q)
     = (case getScheme_loop pre p of
          Inl e \<Rightarrow> Inl e
        | Inr (sch, rest) \<Rightarrow> Inr (sch, rest @ CHR ''?'' # q))"
  by (induction p arbitrary: pre) (simp_all add: isAlpha_def isDigit_def inRange_def)

lemma getScheme_loop_rest:
  "getScheme_loop pre p = Inr (sch, rest) \<Longrightarrow> set rest \<subseteq> set pre \<union> set p"
proof (induction p arbitrary: pre)
  case Nil
  then show ?case by auto
next
  case (Cons a p)
  from Cons.prems have "getScheme_loop (pre @ [a]) p = Inr (sch, rest)
      \<or> rest = pre @ a # p \<or> rest = p"
    by (auto split: if_splits)
  then show ?case
    using Cons.IH [of "pre @ [a]"] by auto
qed

lemma Cut_absent: "sep \<notin> set r \<Longrightarrow> Cut r sep = (r, [], False)"
  by (induction r) auto

lemma Cut_present: "sep \<notin> set r \<Longrightarrow> Cut (r @ sep # q) sep = (r, q, True)"
  by (induction r) auto

lemma HasSuffix_absent: "CHR ''?'' \<notin> set r \<Longrightarrow> \<not> HasSuffix r ''?''"
  by (cases r rule: rev_cases) (auto simp: HasSuffix_def)

lemma ForceQuery_iff:
  assumes "CHR ''?'' \<notin> set r"
  shows "HasSuffix (r @ CHR ''?'' # q) ''?'' \<and> Count (r @ CHR ''?'' # q) CHR ''?'' = 1
         \<longleftrightarrow> q = []"
proof (cases q rule: rev_cases)
  case Nil
  with assms show ?thesis
    by (auto simp: HasSuffix_def Count_def filter_empty_conv)
next
  case (snoc q' c)
  with assms show ?thesis
    by (auto simp: HasSuffix_def Count_def)
qed

lemma parse_eq:
  "parse rawURL =
     (if stringContainsCTLByte rawURL
        then Inl (errorString ''net/url: invalid control character in URL'')
      else if rawURL = ''*'' then Inr (new_URL\<lparr>Path := ''*''\<rparr>)
      else
        (case getScheme rawURL of
           Inl e \<Rightarrow> Inl e
         | Inr (scheme, rest0) \<Rightarrow>
             if HasSuffix rest0 ''?'' \<and> Count rest0 CHR ''?'' = 1
             then parse_rest (new_URL\<lparr>Scheme := ToLower scheme, ForceQuery := True\<rparr>)
                    (butlast rest0)
             else parse_rest (new_URL\<lparr>Scheme := ToLower scheme,
                                RawQuery := fst (snd (Cut rest0 CHR ''?''))\<rparr>)
                    (fst (Cut rest0 CHR ''?''))))"
proof (cases "getScheme rawURL")
  case (Inl e)
  then show ?thesis
    unfolding parse_def by (simp only: sum.case)
next
  case (Inr sr)
  obtain scheme rest0 where sr: "sr = (scheme, rest0)"
    by (cases sr) auto
  show ?thesis
  proof (cases "HasSuffix rest0 ''?'' \<and> Count rest0 CHR ''?'' = 1")
    case True
    with Inr sr show ?thesis
      unfolding parse_def parse_rest_def Let_def
      by (simp only: sum.case prod.case if_True simp_thms)
  next
    case False
    with Inr sr show ?thesis
      unfolding parse_def parse_rest_def Let_def
      by (simp only: sum.case prod.case if_False)
  qed
qed

lemma setPath_Path_indep:
  assumes "setPath u p = Inr d"
  shows "\<exists>d0. setPath u0 p = Inr d0 \<and> Path d0 = Path d"
  using assms by (auto simp: setPath_def split: sum.splits)

lemma parse_rest_Path_indep:
  assumes "parse_rest u rest = Inr d" and "Scheme u0 = Scheme u" and "Path u0 = Path u"
  shows "\<exists>d0. parse_rest u0 rest = Inr d0 \<and> Path d0 = Path d"
proof -
  consider (opaque) "\<not> HasPrefix rest ''/'' \<and> Scheme u \<noteq> []"
    | (authority) "\<not> (\<not> HasPrefix rest ''/'' \<and> Scheme u \<noteq> [])"
        "\<not> (\<not> HasPrefix rest ''/'' \<and> Contains (fst (Cut rest CHR ''/'')) CHR '':'')"
        "(Scheme u \<noteq> [] \<or> \<not> HasPrefix rest ''///'') \<and> HasPrefix rest ''//''"
    | (omit) "\<not> (\<not> HasPrefix rest ''/'' \<and> Scheme u \<noteq> [])"
        "\<not> (\<not> HasPrefix rest ''/'' \<and> Contains (fst (Cut rest CHR ''/'')) CHR '':'')"
        "\<not> ((Scheme u \<noteq> [] \<or> \<not> HasPrefix rest ''///'') \<and> HasPrefix rest ''//'')"
        "Scheme u \<noteq> [] \<and> HasPrefix rest ''/''"
    | (plain) "\<not> (\<not> HasPrefix rest ''/'' \<and> Scheme u \<noteq> [])"
        "\<not> (\<not> HasPrefix rest ''/'' \<and> Contains (fst (Cut rest CHR ''/'')) CHR '':'')"
        "\<not> ((Scheme u \<noteq> [] \<or> \<not> HasPrefix rest ''///'') \<and> HasPrefix rest ''//'')"
        "\<not> (Scheme u \<noteq> [] \<and> HasPrefix rest ''/'')"
    | (colon) "\<not> (\<not> HasPrefix rest ''/'' \<and> Scheme u \<noteq> [])"
        "\<not> HasPrefix rest ''/'' \<and> Contains (fst (Cut rest CHR ''/'')) CHR '':''"
    by blast
  then show ?thesis
  proof cases
    case opaque
    with assms show ?thesis
      by (auto simp: parse_rest_def)
  next
    case authority
    define a where "a = (case Index (drop 2 rest) ''/'' of
                           Some i \<Rightarrow> take i (drop 2 rest) | None \<Rightarrow> drop 2 rest)"
    define r1 where "r1 = (case Index (drop 2 rest) ''/'' of
                             Some i \<Rightarrow> drop i (drop 2 rest) | None \<Rightarrow> [])"
    have eq: "parse_rest v rest =
        (case parseAuthority a of
           Inl e \<Rightarrow> Inl e
         | Inr (user, host) \<Rightarrow> setPath (v\<lparr>User := user, Host := host\<rparr>) r1)"
      if "Scheme v = Scheme u" for v
      unfolding parse_rest_def Let_def a_def r1_def that
      using authority by (simp only: if_True if_False simp_thms)
    from assms(1) eq [of u] obtain user host where
      "parseAuthority a = Inr (user, host)"
      "setPath (u\<lparr>User := user, Host := host\<rparr>) r1 = Inr d"
      by (cases "parseAuthority a") auto
    with setPath_Path_indep [of "u\<lparr>User := user, Host := host\<rparr>" r1 d
        "u0\<lparr>User := user, Host := host\<rparr>"] eq [OF assms(2)]
    show ?thesis by simp
  next
    case omit
    with assms(1) have "setPath (u\<lparr>OmitHost := True\<rparr>) rest = Inr d"
      unfolding parse_rest_def by (simp only: if_True if_False simp_thms)
    moreover from omit have "parse_rest u0 rest = setPath (u0\<lparr>OmitHost := True\<rparr>) rest"
      unfolding parse_rest_def assms(2) by (simp only: if_True if_False simp_thms)
    ultimately show ?thesis
      using setPath_Path_indep by simp
  next
    case plain
    with assms(1) have "setPath u rest = Inr d"
      unfolding parse_rest_def by (simp only: if_True if_False simp_thms)
    moreover from plain have "parse_rest u0 rest = setPath u0 rest"
      unfolding parse_rest_def assms(2) by (simp only: if_True if_False simp_thms)
    ultimately show ?thesis
      using setPath_Path_indep by simp
  next
    case colon
    with assms(1) show ?thesis
      unfolding parse_rest_def by (simp only: if_True if_False simp_thms) simp
  qed
qed

lemma parse_query:
  assumes "CHR ''?'' \<notin> set p" and "parse (p @ CHR ''?'' # q) = Inr d'"
  shows "\<exists>d. parse p = Inr d \<and> Path d = Path d'"
proof -
  let ?raw = "p @ CHR ''?'' # q"
  from assms(2) have ctl': "\<not> stringContainsCTLByte ?raw"
    by (auto simp: parse_def split: if_splits)
  then have ctl: "\<not> stringContainsCTLByte p"
    by (simp add: stringContainsCTLByte_def)
  have star: "?raw \<noteq> ''*''"
    by (cases p) auto
  from assms(2) ctl' star obtain sch rest where
    g: "getScheme_loop [] p = Inr (sch, rest)"
    by (cases "getScheme_loop [] p")
       (auto simp: parse_eq getScheme_def getScheme_loop_query)
  then have g': "getScheme ?raw = Inr (sch, rest @ CHR ''?'' # q)"
    by (simp add: getScheme_def getScheme_loop_query)
  from getScheme_loop_rest [OF g] assms(1) have nq: "CHR ''?'' \<notin> set rest"
    by auto
  let ?u0 = "new_URL\<lparr>Scheme := ToLower sch, RawQuery := []\<rparr>"
  have raw: "parse ?raw =
      (if q = [] then parse_rest (new_URL\<lparr>Scheme := ToLower sch, ForceQuery := True\<rparr>) rest
       else parse_rest (new_URL\<lparr>Scheme := ToLower sch, RawQuery := q\<rparr>) rest)"
  proof (cases "q = []")
    case True
    with ForceQuery_iff [OF nq, of q]
    have "HasSuffix (rest @ ''?'') ''?''" "Count (rest @ ''?'') CHR ''?'' = 1"
      by simp_all
    with ctl' star g' True show ?thesis
      by (simp add: parse_eq)
  next
    case False
    with ForceQuery_iff [OF nq, of q]
    have "\<not> (HasSuffix (rest @ CHR ''?'' # q) ''?'' \<and> Count (rest @ CHR ''?'' # q) CHR ''?'' = 1)"
      by simp
    with ctl' star g' False show ?thesis
      by (auto simp: parse_eq Cut_present [OF nq])
  qed
  with assms(2)
  have "\<exists>u. parse_rest u rest = Inr d' \<and> Scheme u = Scheme ?u0 \<and> Path u = Path ?u0"
    by (cases "q = []") auto
  then obtain d0 where d0: "parse_rest ?u0 rest = Inr d0" "Path d0 = Path d'"
    using parse_rest_Path_indep [where ?u0.0 = ?u0] by metis
  show ?thesis
  proof (cases "p = ''*''")
    case True
    with g have "sch = []" "rest = ''*''"
      by (simp_all add: isAlpha_def isDigit_def inRange_def)
    with d0 have "Path d' = ''*''"
      by (auto simp: parse_rest_def ToLower_def Contains_def new_URL_def setPath_def
            split: if_splits)
    with True show ?thesis
      by (simp add: parse_def stringContainsCTLByte_def new_URL_def)
  next
    case False
    with ctl g d0 show ?thesis
      by (simp add: parse_eq getScheme_def HasSuffix_absent [OF nq] Cut_absent [OF nq])
  qed
qed

lemma setFragment_Path: "setFragment u f = Inr u' \<Longrightarrow> Path u' = Path u"
  by (auto simp: setFragment_def split: sum.splits)

lemma url_Parse_strip:
  assumes "url_Parse dest = Inr d'"
  shows "\<exists>d. url_Parse (takeWhile (\<lambda>c. c \<noteq> CHR ''?'' \<and> c \<noteq> CHR ''#'') dest) = Inr d
              \<and> Path d = Path d'"
proof -
  define p where "p = takeWhile (\<lambda>c. c \<noteq> CHR ''?'' \<and> c \<noteq> CHR ''#'') dest"
  define tail where "tail = dropWhile (\<lambda>c. c \<noteq> CHR ''?'' \<and> c \<noteq> CHR ''#'') dest"
  have dest: "dest = p @ tail"
    by (simp add: p_def tail_def)
  have np: "CHR ''?'' \<notin> set p" "CHR ''#'' \<notin> set p"
    unfolding p_def by (auto dest: set_takeWhileD)
  have up: "url_Parse p = Inr u" if "parse p = Inr u" for u
    using that by (simp add: url_Parse_def Cut_absent [OF np(2)])
  consider "tail = []" | fr where "tail = CHR ''#'' # fr" | t where "tail = CHR ''?'' # t"
  proof (cases tail)
    case Nil
    then show ?thesis using that by simp
  next
    case (Cons c t)
    then have "\<not> (c \<noteq> CHR ''?'' \<and> c \<noteq> CHR ''#'')"
      using hd_dropWhile [of "\<lambda>c. c \<noteq> CHR ''?'' \<and> c \<noteq> CHR ''#''" dest]
      by (simp add: tail_def)
    with Cons show ?thesis using that by auto
  qed
  then have "\<exists>d. url_Parse p = Inr d \<and> Path d = Path d'"
  proof cases
    case 1
    with assms dest show ?thesis by simp
  next
    case 2
    with assms dest obtain u where u: "parse p = Inr u"
      and "d' = u \<or> setFragment u fr = Inr d'"
      by (auto simp: url_Parse_def Cut_present [OF np(2)] split: sum.splits if_splits)
    then have "Path d' = Path u"
      by (auto dest: setFragment_Path)
    with up [OF u] show ?thesis by simp
  next
    case 3
    obtain q fr fnd where c: "Cut t CHR ''#'' = (q, fr, fnd)"
      by (cases "Cut t CHR ''#''") auto
    have "Cut (p @ CHR ''?'' # t) CHR ''#'' = (p @ CHR ''?'' # q, fr, fnd)"
      using np(2) c by (induction p) auto
    with assms dest 3 obtain u where u: "parse (p @ CHR ''?'' # q) = Inr u"
      and "d' = u \<or> setFragment u fr = Inr d'"
      by (auto simp: url_Parse_def split: sum.splits if_splits)
    then have "Path d' = Path u"
      by (auto dest: setFragment_Path)
    with parse_query [OF np(1) u] up show ?thesis
      by auto
  qed
  then show ?thesis
    by (simp add: p_def)
qed

lemma url_Parse_example_query:
  "url_Parse ''https://example.com/a?x=1#frag''
     = Inr (new_URL\<lparr>Scheme := ''https'', Host := ''example.com'', Path := ''/a'',
              RawQuery := ''x=1'', Fragment := ''frag''\<rparr>)"
  by code_simp

lemma url_Parse_example_a:
  "url_Parse ''https://example.com/a''
     = Inr (new_URL\<lparr>Scheme := ''https'', Host := ''example.com'', Path := ''/a''\<rparr>)"
  by code_simp

text \<open>
  C10.  \<^verbatim>\<open>buildForwardURL\<close> reads the path of the destination and nothing else of it: the
  result is the same whatever the destination's query and fragment are.  And for a
  destination URL that \<^verbatim>\<open>url.Parse\<close> accepts, the URL cut before its first \<^verbatim>\<open>?\<close> or \<^verbatim>\<open>#\<close>
  is accepted too and gives the same result, for every base.
\<close>

theorem buildForwardURL_path_only:
  "buildForwardURL base
      (d\<lparr>ForceQuery := fq, RawQuery := q, Fragment := fr, RawFragment := rf\<rparr>)
     = buildForwardURL base d
   \<and> (url_Parse dest = Inr d' \<longrightarrow>
        (\<exists>d0. url_Parse (takeWhile (\<lambda>c. c \<noteq> CHR ''?'' \<and> c \<noteq> CHR ''#'') dest) = Inr d0
              \<and> buildForwardURL base d' = buildForwardURL base d0))"
proof (intro conjI impI)
  show "buildForwardURL base
      (d\<lparr>ForceQuery := fq, RawQuery := q, Fragment := fr, RawFragment := rf\<rparr>)
     = buildForwardURL base d"
    by (simp add: buildForwardURL_def split: sum.split)
next
  assume "url_Parse dest = Inr d'"
  from url_Parse_strip [OF this] obtain d0 where
    "url_Parse (takeWhile (\<lambda>c. c \<noteq> CHR ''?'' \<and> c \<noteq> CHR ''#'') dest) = Inr d0"
    "Path d0 = Path d'"
    by blast
  then show "\<exists>d0. url_Parse (takeWhile (\<lambda>c. c \<noteq> CHR ''?'' \<and> c \<noteq> CHR ''#'') dest) = Inr d0
              \<and> buildForwardURL base d' = buildForwardURL base d0"
    by (auto simp: buildForwardURL_def split: sum.split)
qed

theorem buildForwardURL_path_only_witness:
  "url_Parse ''https://example.com/a?x=1#frag''
     = Inr (new_URL\<lparr>Scheme := ''https'', Host := ''example.com'', Path := ''/a'',
              RawQuery := ''x=1'', Fragment := ''frag''\<rparr>)
   \<and> buildForwardURL ''http://localhost:3000''
        (new_URL\<lparr>Scheme := ''https'', Host := ''example.com'', Path := ''/a'',
              RawQuery := ''x=1'', Fragment := ''frag''\<rparr>)
     = buildForwardURL ''http://localhost:3000''
        (new_URL\<lparr>Scheme := ''https'', Host := ''example.com'', Path := ''/a''\<rparr>)
   \<and> buildForwardURL ''http://localhost:3000''
        (new_URL\<lparr>Scheme := ''https'', Host := ''example.com'', Path := ''/a''\<rparr>)
     = Inr ''http://localhost:3000/a''"
proof -
  have t: "takeWhile (\<lambda>c. c \<noteq> CHR ''?'' \<and> c \<noteq> CHR ''#'') ''https://example.com/a?x=1#frag''
      = ''https://example.com/a''"
    by simp
  have r: "buildForwardURL ''http://localhost:3000''
        (new_URL\<lparr>Scheme := ''https'', Host := ''example.com'', Path := ''/a''\<rparr>)
     = Inr ''http://localhost:3000/a''"
    by (simp add: buildForwardURL_def url_Parse_3000 new_URL_def TrimSuffix_def HasSuffix_def)
  from buildForwardURL_path_only [of "''http://localhost:3000''" _ _ _ _ _
      "''https://example.com/a?x=1#frag''"
      "new_URL\<lparr>Scheme := ''https'', Host := ''example.com'', Path := ''/a'',
              RawQuery := ''x=1'', Fragment := ''frag''\<rparr>"]
    url_Parse_example_query r
  show ?thesis
    by (simp add: t url_Parse_example_a)
qed

subsection \<open>The resolver\<close>

lemma setPath_Scheme: "setPath u p = Inr u' \<Longrightarrow> Scheme u' = Scheme u"
  by (auto simp: setPath_def split: sum.splits)

lemma setFragment_Scheme: "setFragment u p = Inr u' \<Longrightarrow> Scheme u' = Scheme u"
  by (auto simp: setFragment_def split: sum.splits)

lemma parse_Scheme:
  assumes "parse raw = Inr f" "raw \<noteq> ''*''" "getScheme raw = Inr (sch, rest)"
  shows "Scheme f = ToLower sch"
  using assms unfolding parse_def Let_def
  by (auto split: if_splits sum.splits prod.splits dest!: setPath_Scheme)

lemma url_Parse_Scheme:
  assumes "url_Parse raw = Inr f" "getScheme (fst (Cut raw CHR ''#'')) = Inr (sch, rest)"
    "fst (Cut raw CHR ''#'') \<noteq> ''*''"
  shows "Scheme f = ToLower sch"
proof -
  obtain u a fnd where c: "Cut raw CHR ''#'' = (u, a, fnd)"
    by (cases "Cut raw CHR ''#''") auto
  with assms(1) obtain url where p: "parse u = Inr url"
    and f: "f = url \<or> setFragment url a = Inr f"
    by (auto simp: url_Parse_def split: sum.splits if_splits)
  from parse_Scheme [OF p] assms(2,3) c have "Scheme url = ToLower sch"
    by simp
  with f show ?thesis
    by (auto dest: setFragment_Scheme)
qed

lemma url_Parse_http:
  assumes "url_Parse (''http://'' @ r) = Inr f"
  shows "Scheme f = ''http''"
proof -
  obtain b a fnd where c: "Cut r CHR ''#'' = (b, a, fnd)"
    by (cases "Cut r CHR ''#''") auto
  have 1: "fst (Cut (''http://'' @ r) CHR ''#'') = ''http://'' @ b"
    by (simp add: c)
  have 2: "getScheme (''http://'' @ b) = Inr (''http'', ''//'' @ b)"
    by (simp add: getScheme_def isAlpha_def isDigit_def inRange_def)
  have "Scheme f = ToLower ''http''"
    by (rule url_Parse_Scheme [OF assms]) (simp_all only: 1 2, simp)
  then show ?thesis by (simp add: ToLower_def inRange_def)
qed

lemma url_Parse_https:
  assumes "url_Parse (''https://'' @ r) = Inr f"
  shows "Scheme f = ''https''"
proof -
  obtain b a fnd where c: "Cut r CHR ''#'' = (b, a, fnd)"
    by (cases "Cut r CHR ''#''") auto
  have 1: "fst (Cut (''https://'' @ r) CHR ''#'') = ''https://'' @ b"
    by (simp add: c)
  have 2: "getScheme (''https://'' @ b) = Inr (''https'', ''//'' @ b)"
    by (simp add: getScheme_def isAlpha_def isDigit_def inRange_def)
  have "Scheme f = ToLower ''https''"
    by (rule url_Parse_Scheme [OF assms]) (simp_all only: 1 2, simp)
  then show ?thesis by (simp add: ToLower_def inRange_def)
qed

lemma buildForwardURL_scheme:
  assumes "scheme_qualified b" "buildForwardURL b u = Inr s"
  shows "scheme_qualified s"
proof -
  from assms(2) obtain f where f: "url_Parse b = Inr f"
    and s: "s = Scheme f @ ''://'' @ Host f @ TrimSuffix (Path f) ''/'' @ Path u"
    by (auto simp: buildForwardURL_def split: sum.splits)
  from assms(1) consider r where "b = ''http://'' @ r" | r where "b = ''https://'' @ r"
    unfolding scheme_qualified_def HasPrefix_iff by blast
  then have "Scheme f = ''http'' \<or> Scheme f = ''https''"
  proof cases
    case 1
    with f show ?thesis using url_Parse_http by blast
  next
    case 2
    with f show ?thesis using url_Parse_https by blast
  qed
  then show ?thesis
    unfolding s scheme_qualified_def by auto
qed

lemma loop_Inr:
  assumes "scheme_qualified fwd" "scheme_qualified cfwd"
  shows "buildEndpointRoutes_loop acc eps fwd cfwd h ch = Inr routes \<Longrightarrow>
    \<exists>new. routes = acc @ new
      \<and> list_all (\<lambda>r. scheme_qualified (route_URL r)) new
      \<and> map Connect new = map (\<lambda>e. Application e \<noteq> []) (filter (\<lambda>e. parses (endpoint_URL e)) eps)
      \<and> map EventTypes new = map EnabledEvents (filter (\<lambda>e. parses (endpoint_URL e)) eps)"
proof (induction eps arbitrary: acc)
  case Nil
  then show ?case by simp
next
  case (Cons e eps)
  show ?case
  proof (cases "url_Parse (endpoint_URL e)")
    case (Inl err)
    with Cons show ?thesis by (simp add: parses_def)
  next
    case (Inr u)
    show ?thesis
    proof (cases "Application e = []")
      case True
      with Cons.prems Inr obtain dest where d: "buildForwardURL fwd u = Inr dest"
        and r: "buildEndpointRoutes_loop (acc @ [\<lparr>route_URL = dest, route_ForwardHeaders = h,
                        Connect = False, EventTypes = EnabledEvents e\<rparr>]) eps fwd cfwd h ch = Inr routes"
        by (auto split: sum.splits)
      from Cons.IH [OF r] obtain new where "routes = (acc @ [\<lparr>route_URL = dest, route_ForwardHeaders = h,
                        Connect = False, EventTypes = EnabledEvents e\<rparr>]) @ new"
        "list_all (\<lambda>r. scheme_qualified (route_URL r)) new"
        "map Connect new = map (\<lambda>e. Application e \<noteq> []) (filter (\<lambda>e. parses (endpoint_URL e)) eps)"
        "map EventTypes new = map EnabledEvents (filter (\<lambda>e. parses (endpoint_URL e)) eps)"
        by blast
      with buildForwardURL_scheme [OF assms(1) d] True Inr show ?thesis
        by (simp add: parses_def)
    next
      case False
      with Cons.prems Inr obtain dest where d: "buildForwardURL cfwd u = Inr dest"
        and r: "buildEndpointRoutes_loop (acc @ [\<lparr>route_URL = dest, route_ForwardHeaders = ch,
                        Connect = True, EventTypes = EnabledEvents e\<rparr>]) eps fwd cfwd h ch = Inr routes"
        by (auto split: sum.splits)
      from Cons.IH [OF r] obtain new where "routes = (acc @ [\<lparr>route_URL = dest, route_ForwardHeaders = ch,
                        Connect = True, EventTypes = EnabledEvents e\<rparr>]) @ new"
        "list_all (\<lambda>r. scheme_qualified (route_URL r)) new"
        "map Connect new = map (\<lambda>e. Application e \<noteq> []) (filter (\<lambda>e. parses (endpoint_URL e)) eps)"
        "map EventTypes new = map EnabledEvents (filter (\<lambda>e. parses (endpoint_URL e)) eps)"
        by blast
      with buildForwardURL_scheme [OF assms(2) d] False Inr show ?thesis
        by (simp add: parses_def)
    qed
  qed
qed

lemma url_Parse_scheme_qualified:
  assumes "scheme_qualified b" "url_Parse b = Inr f"
  shows "Scheme f = ''http'' \<or> Scheme f = ''https''"
proof -
  from assms(1) consider r where "b = ''http://'' @ r" | r where "b = ''https://'' @ r"
    unfolding scheme_qualified_def HasPrefix_iff by blast
  then show ?thesis
  proof cases
    case 1
    with assms(2) show ?thesis using url_Parse_http by blast
  next
    case 2
    with assms(2) show ?thesis using url_Parse_https by blast
  qed
qed

lemma loop_routes:
  assumes "scheme_qualified fwd" "scheme_qualified cfwd"
  shows "buildEndpointRoutes_loop acc eps fwd cfwd h ch = Inr routes \<Longrightarrow>
    \<exists>new. routes = acc @ new
      \<and> list_all2
          (\<lambda>e r. \<exists>u f. url_Parse (endpoint_URL e) = Inr u
             \<and> url_Parse (if Application e = [] then fwd else cfwd) = Inr f
             \<and> (Scheme f = ''http'' \<or> Scheme f = ''https'')
             \<and> r = \<lparr>route_URL = Scheme f @ ''://'' @ Host f @ TrimSuffix (Path f) ''/'' @ Path u,
                     route_ForwardHeaders = (if Application e = [] then h else ch),
                     Connect = (Application e \<noteq> []),
                     EventTypes = EnabledEvents e\<rparr>)
          (filter (\<lambda>e. parses (endpoint_URL e)) eps) new"
proof (induction eps arbitrary: acc)
  case Nil
  then show ?case by simp
next
  case (Cons e eps)
  show ?case
  proof (cases "url_Parse (endpoint_URL e)")
    case (Inl err)
    with Cons show ?thesis by (simp add: parses_def)
  next
    case (Inr u)
    let ?b = "if Application e = [] then fwd else cfwd"
    let ?hd = "if Application e = [] then h else ch"
    from assms have sq: "scheme_qualified ?b" by simp
    from Cons.prems Inr obtain f where f: "url_Parse ?b = Inr f"
      by (cases "url_Parse ?b") (auto simp: buildForwardURL_def split: if_splits)
    let ?r = "\<lparr>route_URL = Scheme f @ ''://'' @ Host f @ TrimSuffix (Path f) ''/'' @ Path u,
               route_ForwardHeaders = ?hd, Connect = (Application e \<noteq> []),
               EventTypes = EnabledEvents e\<rparr>"
    from Cons.prems Inr f
    have r: "buildEndpointRoutes_loop (acc @ [?r]) eps fwd cfwd h ch = Inr routes"
      by (auto simp: buildForwardURL_def split: if_splits)
    from Cons.IH [OF r] obtain new where new: "routes = (acc @ [?r]) @ new"
      "list_all2
          (\<lambda>e r. \<exists>u f. url_Parse (endpoint_URL e) = Inr u
             \<and> url_Parse (if Application e = [] then fwd else cfwd) = Inr f
             \<and> (Scheme f = ''http'' \<or> Scheme f = ''https'')
             \<and> r = \<lparr>route_URL = Scheme f @ ''://'' @ Host f @ TrimSuffix (Path f) ''/'' @ Path u,
                     route_ForwardHeaders = (if Application e = [] then h else ch),
                     Connect = (Application e \<noteq> []),
                     EventTypes = EnabledEvents e\<rparr>)
          (filter (\<lambda>e. parses (endpoint_URL e)) eps) new"
      by blast
    have p: "parses (endpoint_URL e)"
      using Inr by (simp add: parses_def)
    from url_Parse_scheme_qualified [OF sq f] have s: "Scheme f = ''http'' \<or> Scheme f = ''https''" .
    show ?thesis
    proof (intro exI conjI)
      show "routes = acc @ (?r # new)" using new(1) by simp
      show "list_all2
          (\<lambda>e r. \<exists>u f. url_Parse (endpoint_URL e) = Inr u
             \<and> url_Parse (if Application e = [] then fwd else cfwd) = Inr f
             \<and> (Scheme f = ''http'' \<or> Scheme f = ''https'')
             \<and> r = \<lparr>route_URL = Scheme f @ ''://'' @ Host f @ TrimSuffix (Path f) ''/'' @ Path u,
                     route_ForwardHeaders = (if Application e = [] then h else ch),
                     Connect = (Application e \<noteq> []),
                     EventTypes = EnabledEvents e\<rparr>)
          (filter (\<lambda>e. parses (endpoint_URL e)) (e # eps)) (?r # new)"
        using p new(2) Inr f s by simp
    qed
  qed
qed

lemma loop_total:
  assumes "url_Parse fwd = Inr f" "url_Parse cfwd = Inr g"
  shows "\<exists>routes. buildEndpointRoutes_loop acc eps fwd cfwd h ch = Inr routes"
proof (induction eps arbitrary: acc)
  case Nil
  then show ?case by simp
next
  case (Cons e eps)
  then show ?case
    using assms by (simp add: buildForwardURL_def split: sum.split)
qed

lemma parseURL_3000: "parseURL ''3000'' = ''http://localhost:3000''"
  by code_simp

lemma parseURL_4000: "parseURL ''4000'' = ''http://localhost:4000''"
  by code_simp

lemma url_Parse_4000:
  "url_Parse ''http://localhost:4000''
     = Inr (new_URL\<lparr>Scheme := ''http'', Host := ''localhost:4000''\<rparr>)"
  by code_simp

lemma url_Parse_example_b:
  "url_Parse ''https://example.com/b''
     = Inr (new_URL\<lparr>Scheme := ''https'', Host := ''example.com'', Path := ''/b''\<rparr>)"
  by code_simp

text \<open>
  C1, as the code has it.  With an endpoint in second place whose URL \<^verbatim>\<open>url.Parse\<close> rejects,
  the direct target \<^verbatim>\<open>3000\<close> and the connect target \<^verbatim>\<open>4000\<close>, the routes are exactly
  \<^verbatim>\<open>http://localhost:3000/a\<close> (direct) and \<^verbatim>\<open>http://localhost:4000/b\<close> (connect), in this
  order: the rejected entry is passed over and no error comes up.
\<close>

theorem resolveRoutes_skips_unparsable:
  assumes "url_Parse u = Inl err" and "app \<noteq> []"
  shows "resolveRoutes
       [\<lparr>endpoint_URL = ''https://example.com/a'', Application = [], EnabledEvents = ev1\<rparr>,
        \<lparr>endpoint_URL = u, Application = app2, EnabledEvents = ev2\<rparr>,
        \<lparr>endpoint_URL = ''https://example.com/b'', Application = app, EnabledEvents = ev3\<rparr>]
       (lc\<lparr>forwardURL := ''3000'', forwardConnectURL := ''4000''\<rparr>)
     = Inr [\<lparr>route_URL = ''http://localhost:3000/a'', route_ForwardHeaders = forwardHeaders lc,
              Connect = False, EventTypes = ev1\<rparr>,
            \<lparr>route_URL = ''http://localhost:4000/b'', route_ForwardHeaders = forwardConnectHeaders lc,
              Connect = True, EventTypes = ev3\<rparr>]"
  using assms
  by (simp add: resolveRoutes_def buildEndpointRoutes_def buildForwardURL_def
        parseURL_3000 parseURL_4000 url_Parse_3000 url_Parse_4000
        url_Parse_example_a url_Parse_example_b new_URL_def TrimSuffix_def HasSuffix_def)

theorem resolveRoutes_skips_unparsable_witness:
  "url_Parse ''%zz'' = Inl (url_Error ''parse'' ''%zz'' (EscapeError ''%zz''))
   \<and> resolveRoutes
       [\<lparr>endpoint_URL = ''https://example.com/a'', Application = [], EnabledEvents = [''*'']\<rparr>,
        \<lparr>endpoint_URL = ''%zz'', Application = [], EnabledEvents = [''*'']\<rparr>,
        \<lparr>endpoint_URL = ''https://example.com/b'', Application = ''ca_1'', EnabledEvents = [''*'']\<rparr>]
       (newListenCmd\<lparr>forwardURL := ''3000'', forwardConnectURL := ''4000''\<rparr>)
     = Inr [\<lparr>route_URL = ''http://localhost:3000/a'', route_ForwardHeaders = [],
              Connect = False, EventTypes = [''*'']\<rparr>,
            \<lparr>route_URL = ''http://localhost:4000/b'', route_ForwardHeaders = [],
              Connect = True, EventTypes = [''*'']\<rparr>]"
proof -
  have e: "url_Parse ''%zz'' = Inl (url_Error ''parse'' ''%zz'' (EscapeError ''%zz''))"
    by code_simp
  have a: "''ca_1'' \<noteq> []" by simp
  from resolveRoutes_skips_unparsable [OF e a, of "[''*'']" "[]" "[''*'']" "[''*'']" newListenCmd] e
  show ?thesis by (simp add: newListenCmd_def)
qed

text \<open>
  C1 as stated fails: \<^verbatim>\<open>url.Parse\<close> accepts \<^verbatim>\<open>not a url\<close> as a relative reference whose
  path is the whole string, so that endpoint is not skipped and three routes come back.
\<close>

theorem resolveRoutes_not_a_url_counterexample:
  "resolveRoutes
       [\<lparr>endpoint_URL = ''https://example.com/a'', Application = [], EnabledEvents = [''*'']\<rparr>,
        \<lparr>endpoint_URL = ''not a url'', Application = [], EnabledEvents = [''*'']\<rparr>,
        \<lparr>endpoint_URL = ''https://example.com/b'', Application = ''ca_1'', EnabledEvents = [''*'']\<rparr>]
       (newListenCmd\<lparr>forwardURL := ''3000'', forwardConnectURL := ''4000''\<rparr>)
     = Inr [\<lparr>route_URL = ''http://localhost:3000/a'', route_ForwardHeaders = [],
              Connect = False, EventTypes = [''*'']\<rparr>,
            \<lparr>route_URL = ''http://localhost:3000not a url'', route_ForwardHeaders = [],
              Connect = False, EventTypes = [''*'']\<rparr>,
            \<lparr>route_URL = ''http://localhost:4000/b'', route_ForwardHeaders = [],
              Connect = True, EventTypes = [''*'']\<rparr>]"
  by code_simp

text \<open>
  C2 fails on the code.  The flag \<^verbatim>\<open>--forward-connect-to\<close> is documented with "default: same
  as normal events", but \<^verbatim>\<open>runListenCmd\<close> passes \<^verbatim>\<open>parseURL(lc.forwardConnectURL)\<close> on as
  it is: with no connect target, a connect endpoint \<^verbatim>\<open>https://example.com/b\<close> is routed to
  \<^verbatim>\<open>http:///b\<close>, not to \<^verbatim>\<open>http://localhost:3000/b\<close>.
\<close>

theorem runListenCmd_no_connect_fallback:
  "snd (runListenCmd
      \<lparr>GetDeviceName = Inr ''dev'', GetAPIKey = (\<lambda>live. Inr ''sk_test_1''),
       GetSessionSecret = (\<lambda>d k a. Inr ''whsec_1''),
       WebhookEndpointsList = (\<lambda>a v k.
         [\<lparr>endpoint_URL = ''https://example.com/b'', Application = ''ca_1'',
           EnabledEvents = [''*'']\<rparr>]),
       DefaultAPIBaseURL = ''https://api.stripe.com''\<rparr>
      (newListenCmd\<lparr>useConfiguredWebhooks := True, forwardURL := ''3000''\<rparr>))
   = Proxy_Run (proxy_Init (newListenCmd\<lparr>useConfiguredWebhooks := True, forwardURL := ''3000''\<rparr>)
       ''dev'' ''sk_test_1''
       [\<lparr>route_URL = ''http:///b'', route_ForwardHeaders = [], Connect = True,
         EventTypes = [''*'']\<rparr>])"
  by code_simp

text \<open>
  C3, as the code has it.  The routes that the resolver returns are those of the endpoints
  whose URL \<^verbatim>\<open>url.Parse\<close> accepts, one each and in their order: the other endpoints are
  dropped and the rest is resolved.  The route of an endpoint has the headers of its kind
  (direct or connect), its kind and its event types, and its URL is made of the normalised
  target of its kind and of the endpoint's URL, both as \<^verbatim>\<open>url.Parse\<close> reads them: the
  target's scheme, which is \<^verbatim>\<open>http\<close> or \<^verbatim>\<open>https\<close>, then \<^verbatim>\<open>://\<close>, the target's host, the
  target's path without one trailing slash, and the endpoint's decoded path.  So every URL
  starts with \<^verbatim>\<open>http://\<close> or \<^verbatim>\<open>https://\<close>.  When both normalised targets parse, the resolver
  returns routes for every endpoint list.
\<close>

theorem resolveRoutes_scheme_qualified:
  "(resolveRoutes endpoints lc = Inr routes \<longrightarrow>
      list_all (\<lambda>r. scheme_qualified (route_URL r)) routes
      \<and> map Connect routes
          = map (\<lambda>e. Application e \<noteq> []) (filter (\<lambda>e. parses (endpoint_URL e)) endpoints)
      \<and> map EventTypes routes
          = map EnabledEvents (filter (\<lambda>e. parses (endpoint_URL e)) endpoints)
      \<and> list_all2
          (\<lambda>e r. \<exists>u f. url_Parse (endpoint_URL e) = Inr u
             \<and> url_Parse (parseURL (if Application e = [] then forwardURL lc
                                    else forwardConnectURL lc)) = Inr f
             \<and> (Scheme f = ''http'' \<or> Scheme f = ''https'')
             \<and> r = \<lparr>route_URL = Scheme f @ ''://'' @ Host f @ TrimSuffix (Path f) ''/'' @ Path u,
                     route_ForwardHeaders = (if Application e = [] then forwardHeaders lc
                                             else forwardConnectHeaders lc),
                     Connect = (Application e \<noteq> []),
                     EventTypes = EnabledEvents e\<rparr>)
          (filter (\<lambda>e. parses (endpoint_URL e)) endpoints) routes)
   \<and> (parses (parseURL (forwardURL lc)) \<and> parses (parseURL (forwardConnectURL lc)) \<longrightarrow>
        (\<exists>routes. resolveRoutes endpoints lc = Inr routes))"
proof (intro conjI impI)
  assume r: "resolveRoutes endpoints lc = Inr routes"
  have sq: "scheme_qualified (parseURL (forwardURL lc))"
    "scheme_qualified (parseURL (forwardConnectURL lc))"
    unfolding scheme_qualified_def by (rule parseURL_scheme)+
  from loop_Inr [OF sq, of "[]" endpoints "forwardHeaders lc" "forwardConnectHeaders lc" routes] r
  show "list_all (\<lambda>r. scheme_qualified (route_URL r)) routes"
    and "map Connect routes
          = map (\<lambda>e. Application e \<noteq> []) (filter (\<lambda>e. parses (endpoint_URL e)) endpoints)"
    and "map EventTypes routes
          = map EnabledEvents (filter (\<lambda>e. parses (endpoint_URL e)) endpoints)"
    by (auto simp: resolveRoutes_def buildEndpointRoutes_def)
  have c: "parseURL (if Application e = [] then forwardURL lc else forwardConnectURL lc)
      = (if Application e = [] then parseURL (forwardURL lc) else parseURL (forwardConnectURL lc))"
    for e by simp
  from loop_routes [OF sq, of "[]" endpoints "forwardHeaders lc" "forwardConnectHeaders lc" routes] r
  show "list_all2
          (\<lambda>e r. \<exists>u f. url_Parse (endpoint_URL e) = Inr u
             \<and> url_Parse (parseURL (if Application e = [] then forwardURL lc
                                    else forwardConnectURL lc)) = Inr f
             \<and> (Scheme f = ''http'' \<or> Scheme f = ''https'')
             \<and> r = \<lparr>route_URL = Scheme f @ ''://'' @ Host f @ TrimSuffix (Path f) ''/'' @ Path u,
                     route_ForwardHeaders = (if Application e = [] then forwardHeaders lc
                                             else forwardConnectHeaders lc),
                     Connect = (Application e \<noteq> []),
                     EventTypes = EnabledEvents e\<rparr>)
          (filter (\<lambda>e. parses (endpoint_URL e)) endpoints) routes"
    unfolding c by (simp add: resolveRoutes_def buildEndpointRoutes_def)
next
  assume "parses (parseURL (forwardURL lc)) \<and> parses (parseURL (forwardConnectURL lc))"
  then obtain f g where "url_Parse (parseURL (forwardURL lc)) = Inr f"
    "url_Parse (parseURL (forwardConnectURL lc)) = Inr g"
    by (auto simp: parses_def split: sum.splits)
  from loop_total [OF this] show "\<exists>routes. resolveRoutes endpoints lc = Inr routes"
    by (simp add: resolveRoutes_def buildEndpointRoutes_def)
qed

theorem resolveRoutes_scheme_qualified_witness:
  "resolveRoutes
       [\<lparr>endpoint_URL = ''https://example.com/a'', Application = [], EnabledEvents = [''*'']\<rparr>,
        \<lparr>endpoint_URL = ''%zz'', Application = [], EnabledEvents = [''*'']\<rparr>,
        \<lparr>endpoint_URL = ''https://example.com/b'', Application = ''ca_1'', EnabledEvents = [''*'']\<rparr>]
       (newListenCmd\<lparr>forwardURL := ''3000'', forwardConnectURL := ''4000''\<rparr>)
     = Inr [\<lparr>route_URL = ''http://localhost:3000/a'', route_ForwardHeaders = [],
              Connect = False, EventTypes = [''*'']\<rparr>,
            \<lparr>route_URL = ''http://localhost:4000/b'', route_ForwardHeaders = [],
              Connect = True, EventTypes = [''*'']\<rparr>]
   \<and> parses (parseURL (forwardURL (newListenCmd\<lparr>forwardURL := ''3000'', forwardConnectURL := ''4000''\<rparr>)))
   \<and> parses (parseURL (forwardConnectURL (newListenCmd\<lparr>forwardURL := ''3000'', forwardConnectURL := ''4000''\<rparr>)))
   \<and> list_all (\<lambda>r. scheme_qualified (route_URL r))
        [\<lparr>route_URL = ''http://localhost:3000/a'', route_ForwardHeaders = [],
              Connect = False, EventTypes = [''*'']\<rparr>,
         \<lparr>route_URL = ''http://localhost:4000/b'', route_ForwardHeaders = [],
              Connect = True, EventTypes = [''*'']\<rparr>]"
proof -
  let ?eps = "[\<lparr>endpoint_URL = ''https://example.com/a'', Application = [], EnabledEvents = [''*'']\<rparr>,
        \<lparr>endpoint_URL = ''%zz'', Application = [], EnabledEvents = [''*'']\<rparr>,
        \<lparr>endpoint_URL = ''https://example.com/b'', Application = ''ca_1'', EnabledEvents = [''*'']\<rparr>]"
  let ?lc = "newListenCmd\<lparr>forwardURL := ''3000'', forwardConnectURL := ''4000''\<rparr>"
  let ?routes = "[\<lparr>route_URL = ''http://localhost:3000/a'', route_ForwardHeaders = [],
              Connect = False, EventTypes = [''*'']\<rparr>,
            \<lparr>route_URL = ''http://localhost:4000/b'', route_ForwardHeaders = [],
              Connect = True, EventTypes = [''*'']\<rparr>]"
  have r: "resolveRoutes ?eps ?lc = Inr ?routes"
    by code_simp
  have p: "parses (parseURL (forwardURL ?lc))" "parses (parseURL (forwardConnectURL ?lc))"
    by code_simp+
  from resolveRoutes_scheme_qualified [of ?eps ?lc ?routes] r p
  show ?thesis by blast
qed

text \<open>
  C3 as stated fails: the relative endpoint URL \<^verbatim>\<open>not a url\<close> is accepted, and its route
  \<^verbatim>\<open>http://localhost:3000not a url\<close> is a URL that \<^verbatim>\<open>url.Parse\<close> itself rejects.
\<close>

theorem resolveRoutes_malformed_counterexample:
  "resolveRoutes
       [\<lparr>endpoint_URL = ''not a url'', Application = [], EnabledEvents = [''*'']\<rparr>]
       (newListenCmd\<lparr>forwardURL := ''3000'', forwardConnectURL := ''4000''\<rparr>)
     = Inr [\<lparr>route_URL = ''http://localhost:3000not a url'', route_ForwardHeaders = [],
              Connect = False, EventTypes = [''*'']\<rparr>]
   \<and> url_Parse ''http://localhost:3000not a url''
       = Inl (url_Error ''parse'' ''http://localhost:3000not a url''
                (InvalidPort '':3000not a url''))"
  by code_simp

subsection \<open>The command\<close>

lemma HasPrefix_slash_nonempty: "HasPrefix s ''/'' \<Longrightarrow> s \<noteq> []"
  by (cases s) simp_all

text \<open>
  C5, as the code has it.  With \<^verbatim>\<open>--use-configured-webhooks\<close>, when \<^verbatim>\<open>--forward-to\<close> is a
  relative path, or the listing fetched with the profile's key has no endpoint, or
  \<^verbatim>\<open>--forward-to\<close> is missing: the proxy is never run, and unless \<^verbatim>\<open>--print-secret\<close> is
  given the command returns an error.
\<close>

theorem runListenCmd_configured_webhooks_fails:
  assumes "useConfiguredWebhooks lc"
    and "HasPrefix (forwardURL lc) ''/''
         \<or> (\<forall>key. GetAPIKey w (livemode lc) = Inr key \<longrightarrow> getEndpointsFromAPI w lc key = [])
         \<or> forwardURL lc = []"
  shows "(\<not> onlyPrintSecret lc \<longrightarrow> (\<exists>err. snd (runListenCmd w lc) = Return_error err))
         \<and> (\<forall>cfg. snd (runListenCmd w lc) \<noteq> Proxy_Run cfg)"
  using assms
  by (auto simp: runListenCmd_def Let_def dest: HasPrefix_slash_nonempty split: sum.splits)

theorem runListenCmd_configured_webhooks_fails_witness:
  "useConfiguredWebhooks (newListenCmd\<lparr>useConfiguredWebhooks := True, forwardURL := ''3000''\<rparr>)
   \<and> GetAPIKey
        \<lparr>GetDeviceName = Inr ''dev'', GetAPIKey = (\<lambda>live. Inr ''sk_test_1''),
         GetSessionSecret = (\<lambda>d k a. Inr ''whsec_1''),
         WebhookEndpointsList = (\<lambda>a v k. if k = ''sk_test_1'' then []
            else [\<lparr>endpoint_URL = ''https://example.com/a'', Application = [],
                   EnabledEvents = [''*'']\<rparr>]),
         DefaultAPIBaseURL = ''https://api.stripe.com''\<rparr>
        (livemode (newListenCmd\<lparr>useConfiguredWebhooks := True, forwardURL := ''3000''\<rparr>))
      = Inr ''sk_test_1''
   \<and> getEndpointsFromAPI
        \<lparr>GetDeviceName = Inr ''dev'', GetAPIKey = (\<lambda>live. Inr ''sk_test_1''),
         GetSessionSecret = (\<lambda>d k a. Inr ''whsec_1''),
         WebhookEndpointsList = (\<lambda>a v k. if k = ''sk_test_1'' then []
            else [\<lparr>endpoint_URL = ''https://example.com/a'', Application = [],
                   EnabledEvents = [''*'']\<rparr>]),
         DefaultAPIBaseURL = ''https://api.stripe.com''\<rparr>
        (newListenCmd\<lparr>useConfiguredWebhooks := True, forwardURL := ''3000''\<rparr>) ''sk_test_1'' = []
   \<and> \<not> onlyPrintSecret (newListenCmd\<lparr>useConfiguredWebhooks := True, forwardURL := ''3000''\<rparr>)
   \<and> snd (runListenCmd
        \<lparr>GetDeviceName = Inr ''dev'', GetAPIKey = (\<lambda>live. Inr ''sk_test_1''),
         GetSessionSecret = (\<lambda>d k a. Inr ''whsec_1''),
         WebhookEndpointsList = (\<lambda>a v k. if k = ''sk_test_1'' then []
            else [\<lparr>endpoint_URL = ''https://example.com/a'', Application = [],
                   EnabledEvents = [''*'']\<rparr>]),
         DefaultAPIBaseURL = ''https://api.stripe.com''\<rparr>
        (newListenCmd\<lparr>useConfiguredWebhooks := True, forwardURL := ''3000''\<rparr>))
      = Return_error (errorString
          ''You have not defined any webhook endpoints on your account. Go to the Stripe Dashboard to add some: https://dashboard.stripe.com/test/webhooks'')"
proof -
  let ?w = "\<lparr>GetDeviceName = Inr ''dev'', GetAPIKey = (\<lambda>live. Inr ''sk_test_1''),
         GetSessionSecret = (\<lambda>d k a. Inr ''whsec_1''),
         WebhookEndpointsList = (\<lambda>a v k. if k = ''sk_test_1'' then []
            else [\<lparr>endpoint_URL = ''https://example.com/a'', Application = [],
                   EnabledEvents = [''*'']\<rparr>]),
         DefaultAPIBaseURL = ''https://api.stripe.com''\<rparr>"
  let ?lc = "newListenCmd\<lparr>useConfiguredWebhooks := True, forwardURL := ''3000''\<rparr>"
  have u: "useConfiguredWebhooks ?lc" by (simp add: newListenCmd_def)
  have k: "GetAPIKey ?w (livemode ?lc) = Inr ''sk_test_1''" by simp
  have l: "getEndpointsFromAPI ?w ?lc ''sk_test_1'' = []"
    by (simp add: getEndpointsFromAPI_def)
  from k l have e: "HasPrefix (forwardURL ?lc) ''/''
         \<or> (\<forall>key. GetAPIKey ?w (livemode ?lc) = Inr key \<longrightarrow> getEndpointsFromAPI ?w ?lc key = [])
         \<or> forwardURL ?lc = []"
    by simp
  have n: "\<not> onlyPrintSecret ?lc" by (simp add: newListenCmd_def)
  have r: "snd (runListenCmd ?w ?lc) = Return_error (errorString
          ''You have not defined any webhook endpoints on your account. Go to the Stripe Dashboard to add some: https://dashboard.stripe.com/test/webhooks'')"
    by code_simp
  from runListenCmd_configured_webhooks_fails [OF u e] u k l n r
  show ?thesis by blast
qed

text \<open>
  C5 as stated fails: with \<^verbatim>\<open>--print-secret\<close> the command prints the secret and returns
  \<^verbatim>\<open>nil\<close> before it looks at the forwarding flags, here with \<^verbatim>\<open>--use-configured-webhooks\<close>
  and no \<^verbatim>\<open>--forward-to\<close>.
\<close>

theorem runListenCmd_print_secret_counterexample:
  "runListenCmd
      \<lparr>GetDeviceName = Inr ''dev'', GetAPIKey = (\<lambda>live. Inr ''sk_test_1''),
       GetSessionSecret = (\<lambda>d k a. Inr ''whsec_1''), WebhookEndpointsList = (\<lambda>a v k. []),
       DefaultAPIBaseURL = ''https://api.stripe.com''\<rparr>
      (newListenCmd\<lparr>useConfiguredWebhooks := True, onlyPrintSecret := True\<rparr>)
   = ([''whsec_1'' @ [CHR 0x0A]], Return_nil)"
  by code_simp

lemma eventWarnings_filter:
  "eventWarnings evs = map warning (filter (\<lambda>e. validEvents e = None) evs)"
  by (induction evs) simp_all

lemma validEvents_wildcard: "validEvents ''*'' = Some True"
  by code_simp

lemma proxy_Init_events:
  "proxy_Init (lc\<lparr>events := evs\<rparr>) d k rs = (proxy_Init lc d k rs)\<lparr>Events := evs\<rparr>"
  by (simp add: proxy_Init_def)

lemma resolveRoutes_events: "resolveRoutes eps (lc\<lparr>events := evs\<rparr>) = resolveRoutes eps lc"
  by (simp add: resolveRoutes_def)

lemma getEndpointsFromAPI_events:
  "getEndpointsFromAPI w (lc\<lparr>events := evs\<rparr>) key = getEndpointsFromAPI w lc key"
  by (simp add: getEndpointsFromAPI_def)

text \<open>
  C9.  The warnings printed for a list of event types are those of its entries that are not
  keys of \<^verbatim>\<open>validEvents\<close>, in order, and the wildcard is a key.  They stop nothing: when the
  command runs the proxy, it has printed the warnings and nothing else, the proxy gets the
  requested list as it is, and with any other list of event types the command runs the
  proxy all the same, with the same configuration but for that list.
\<close>

theorem eventWarnings_advisory:
  "eventWarnings evs = map warning (filter (\<lambda>e. validEvents e = None) evs)
   \<and> validEvents ''*'' = Some True
   \<and> (snd (runListenCmd w lc) = Proxy_Run cfg \<longrightarrow>
        fst (runListenCmd w lc) = eventWarnings (events lc)
        \<and> Events cfg = events lc
        \<and> runListenCmd w (lc\<lparr>events := evs\<rparr>)
            = (eventWarnings evs, Proxy_Run (cfg\<lparr>Events := evs\<rparr>)))"
proof (intro conjI impI)
  show "eventWarnings evs = map warning (filter (\<lambda>e. validEvents e = None) evs)"
    by (rule eventWarnings_filter)
  show "validEvents ''*'' = Some True"
    by (rule validEvents_wildcard)
next
  assume r: "snd (runListenCmd w lc) = Proxy_Run cfg"
  then show "fst (runListenCmd w lc) = eventWarnings (events lc)"
    by (auto simp: runListenCmd_def Let_def split: sum.splits if_splits)
  from r show "Events cfg = events lc"
    by (auto simp: runListenCmd_def Let_def proxy_Init_def split: sum.splits if_splits)
  from r show "runListenCmd w (lc\<lparr>events := evs\<rparr>)
            = (eventWarnings evs, Proxy_Run (cfg\<lparr>Events := evs\<rparr>))"
    by (auto simp: runListenCmd_def Let_def proxy_Init_events resolveRoutes_events
          getEndpointsFromAPI_events split: sum.splits if_splits)
qed

theorem eventWarnings_advisory_witness:
  "snd (runListenCmd
      \<lparr>GetDeviceName = Inr ''dev'', GetAPIKey = (\<lambda>live. Inr ''sk_test_1''),
       GetSessionSecret = (\<lambda>d k a. Inr ''whsec_1''), WebhookEndpointsList = (\<lambda>a v k. []),
       DefaultAPIBaseURL = ''https://api.stripe.com''\<rparr>
      (newListenCmd\<lparr>forwardURL := ''3000''\<rparr>))
     = Proxy_Run (proxy_Init (newListenCmd\<lparr>forwardURL := ''3000''\<rparr>) ''dev'' ''sk_test_1'' [])
   \<and> runListenCmd
      \<lparr>GetDeviceName = Inr ''dev'', GetAPIKey = (\<lambda>live. Inr ''sk_test_1''),
       GetSessionSecret = (\<lambda>d k a. Inr ''whsec_1''), WebhookEndpointsList = (\<lambda>a v k. []),
       DefaultAPIBaseURL = ''https://api.stripe.com''\<rparr>
      (newListenCmd\<lparr>forwardURL := ''3000'',
         events := [''*'', ''charge.succeeded'', ''not.a.real.event'']\<rparr>)
     = ([warning ''not.a.real.event''],
        Proxy_Run ((proxy_Init (newListenCmd\<lparr>forwardURL := ''3000''\<rparr>) ''dev'' ''sk_test_1'' [])
          \<lparr>Events := [''*'', ''charge.succeeded'', ''not.a.real.event'']\<rparr>))"
proof -
  let ?w = "\<lparr>GetDeviceName = Inr ''dev'', GetAPIKey = (\<lambda>live. Inr ''sk_test_1''),
       GetSessionSecret = (\<lambda>d k a. Inr ''whsec_1''), WebhookEndpointsList = (\<lambda>a v k. []),
       DefaultAPIBaseURL = ''https://api.stripe.com''\<rparr>"
  let ?lc = "newListenCmd\<lparr>forwardURL := ''3000''\<rparr>"
  let ?cfg = "proxy_Init ?lc ''dev'' ''sk_test_1'' []"
  let ?evs = "[''*'', ''charge.succeeded'', ''not.a.real.event'']"
  have r: "snd (runListenCmd ?w ?lc) = Proxy_Run ?cfg"
    by (simp add: runListenCmd_def newListenCmd_def)
  have e: "eventWarnings ?evs = [warning ''not.a.real.event'']"
    by code_simp
  from eventWarnings_advisory [of ?evs ?w ?lc ?cfg] r e
  show ?thesis by simp
qed

end
